theory Spec2Isabelle
  imports Main
begin

section \<open>Bytes, text and Python exceptions\<close>

text \<open>
  A Python \<open>bytes\<close> value is a list of 8-bit characters; a \<open>str\<close> is a list of
  characters as well. Decoding and encoding with the \<open>ascii\<close> codec succeed exactly
  when every character is below 128, and then leave the characters as they are.
\<close>

type_synonym bytes = "char list"

abbreviation CR :: char where "CR \<equiv> CHR 0x0D"
abbreviation LF :: char where "LF \<equiv> CHR 0x0A"

datatype exn =
    UnexpectedSocketTermination
  | DataExceededLimit
  | UnicodeDecodeError
  | UnicodeEncodeError
  | TypeError
  | ValueError
  | AssertionError
  | ExpectingRNTO
  | SocketTimeout
  | SocketSendError
  | OSError
  | StorageError
  | InvalidRootDir
  | ApiError

definition is_ascii :: "char \<Rightarrow> bool" where
  "is_ascii c = (of_char c < (128::nat))"

definition decode_ascii :: "bytes \<Rightarrow> exn + string" where
  "decode_ascii b = (if list_all is_ascii b then Inr b else Inl UnicodeDecodeError)"

section \<open>The line reader: \<open>Server.read_till_crlf\<close>\<close>

text \<open>
  The control connection is the list of bytes the peer sends before it closes the
  socket. \<open>client.recv(1)\<close> takes the first byte, and returns the empty bytes object
  once the list is used up. The loop of \<open>read_till_crlf\<close> carries \<open>buf\<close> and
  \<open>is_prv_cr\<close>; the result pairs the outcome with the bytes still unread.
\<close>

definition max_buf_len :: nat where
  "max_buf_len = 1000"

fun read_loop :: "bytes \<Rightarrow> bool \<Rightarrow> bytes \<Rightarrow> (exn + bytes) \<times> bytes" where
  "read_loop buf is_prv_cr [] =
     (if buf \<noteq> [] then (Inl UnexpectedSocketTermination, []) else (Inr buf, []))"
| "read_loop buf is_prv_cr (c # cs) =
     (if length buf > max_buf_len then (Inl DataExceededLimit, cs)
      else if c = CR then read_loop (buf @ [c]) True cs
      else if is_prv_cr \<and> c = LF then (Inr (buf @ [c]), cs)
      else read_loop (buf @ [c]) False cs)"

definition read_till_crlf :: "bytes \<Rightarrow> (exn + string) \<times> bytes" where
  "read_till_crlf inp =
     (case read_loop [] False inp of
        (Inl e, rest) \<Rightarrow> (Inl e, rest)
      | (Inr buf, rest) \<Rightarrow> (decode_ascii (take (length buf - 2) buf), rest))"

text \<open>
  \<open>crlf_free p xs\<close>: the bytes \<open>xs\<close>, read after a byte that was a carriage return
  exactly when \<open>p\<close> holds, complete no CR LF pair.
\<close>

fun crlf_free :: "bool \<Rightarrow> bytes \<Rightarrow> bool" where
  "crlf_free p [] = True"
| "crlf_free p (c # cs) = (\<not> (p \<and> c = LF) \<and> crlf_free (c = CR) cs)"

section \<open>The storage provider interface: \<open>ProviderBase\<close>\<close>

text \<open>
  The command loop only knows the abstract methods of \<open>ProviderBase\<close>. A provider is
  a state of type \<open>'p\<close> with one function per method; each returns the value or the
  exception raised, together with the provider state it leaves behind. The argument of
  a command is \<open>None\<close> when the line has no space, as in the source. \<open>save_file\<close>
  receives the bytes that its \<open>get_file_chunk\<close> callable can deliver.
\<close>

record 'p provider =
  get_work_dir :: "'p \<Rightarrow> (exn + string) \<times> 'p"
  change_work_dir :: "string option \<Rightarrow> 'p \<Rightarrow> (exn + bool) \<times> 'p"
  listdir :: "'p \<Rightarrow> (exn + string) \<times> 'p"
  get_size :: "string option \<Rightarrow> 'p \<Rightarrow> (exn + bool \<times> string) \<times> 'p"
  get_file :: "string option \<Rightarrow> 'p \<Rightarrow> (exn + bytes) \<times> 'p"
  save_file :: "string option \<Rightarrow> bytes \<Rightarrow> 'p \<Rightarrow> (exn + unit) \<times> 'p"
  rename_file :: "string option \<Rightarrow> string \<Rightarrow> 'p \<Rightarrow> (exn + unit) \<times> 'p"
  del_file :: "string option \<Rightarrow> 'p \<Rightarrow> (exn + unit) \<times> 'p"
  mkdir :: "string option \<Rightarrow> 'p \<Rightarrow> (exn + unit) \<times> 'p"
  rmdir :: "string option \<Rightarrow> 'p \<Rightarrow> (exn + unit) \<times> 'p"

section \<open>The session of \<open>Server.command_loop\<close>\<close>

text \<open>
  What a session does is recorded as a list of events: the replies on the control
  connection, the provider methods invoked, and the actions on the passive data
  connection.
\<close>

datatype pcall =
    GetWorkDir
  | ChangeWorkDir "string option"
  | Listdir
  | GetSize "string option"
  | GetFile "string option"
  | SaveFile "string option"
  | RenameFile "string option" string
  | DelFile "string option"
  | Mkdir "string option"
  | Rmdir "string option"

datatype event =
    Reply nat string
  | Call pcall
  | DataAccept
  | DataSend bytes
  | DataClose

text \<open>
  A data connection is given by the bytes its peer sends before closing it and by
  whether sending on it succeeds. For the n-th \<open>PASV\<close> of a session the environment
  fixes the port of the listener and the connection accepted within the timeout, if any.
\<close>

record data_conn =
  incoming :: bytes
  send_ok :: bool

record 'p session =
  control_in :: bytes
  local_ip :: string
  pasv_env :: "nat \<Rightarrow> nat \<times> data_conn option"
  pasv_count :: nat
  passive_client :: "data_conn option"
  prov :: 'p
  trace :: "event list"

datatype pydata = Str string | Bytes bytes

definition SERVER_NAME :: string where
  \<open>SERVER_NAME = ''Eli's ftp server''\<close>

function str_nat :: "nat \<Rightarrow> string" where
  "str_nat n =
     (if n < 10 then [''0123456789'' ! n]
      else str_nat (n div 10) @ [''0123456789'' ! (n mod 10)])"
  by pat_completeness auto
termination
  by (relation "measure id") auto

declare str_nat.simps [simp del]

definition str_arg :: "string option \<Rightarrow> string" where
  "str_arg a = (case a of None \<Rightarrow> ''None'' | Some x \<Rightarrow> x)"

definition raise :: "exn \<Rightarrow> 's \<Rightarrow> (exn + 'a) \<times> 's" where
  "raise e s = (Inl e, s)"

definition and_then ::
  "('s \<Rightarrow> (exn + 'a) \<times> 's) \<Rightarrow> ('a \<Rightarrow> 's \<Rightarrow> (exn + 'b) \<times> 's) \<Rightarrow> 's \<Rightarrow> (exn + 'b) \<times> 's" where
  "and_then m k s = (case m s of (Inl e, s') \<Rightarrow> (Inl e, s') | (Inr a, s') \<Rightarrow> k a s')"

definition reply :: "nat \<Rightarrow> string \<Rightarrow> 'p session \<Rightarrow> (exn + unit) \<times> 'p session" where
  "reply status data s =
     (if list_all is_ascii data then (Inr (), s\<lparr>trace := trace s @ [Reply status data]\<rparr>)
      else (Inl UnicodeEncodeError, s))"

definition invoke ::
  "pcall \<Rightarrow> ('p \<Rightarrow> (exn + 'a) \<times> 'p) \<Rightarrow> 'p session \<Rightarrow> (exn + 'a) \<times> 'p session" where
  "invoke c m s =
     (case m (prov s) of (r, p') \<Rightarrow> (r, s\<lparr>prov := p', trace := trace s @ [Call c]\<rparr>))"

definition to_bytes :: "pydata \<Rightarrow> 'p session \<Rightarrow> (exn + bytes) \<times> 'p session" where
  "to_bytes d s =
     (case d of
        Bytes b \<Rightarrow> (Inr b, s)
      | Str x \<Rightarrow> (if list_all is_ascii x then (Inr x, s) else (Inl UnicodeEncodeError, s)))"

definition data_send :: "data_conn \<Rightarrow> bytes \<Rightarrow> 'p session \<Rightarrow> (exn + unit) \<times> 'p session" where
  "data_send pc d s =
     (if send_ok pc then (Inr (), s\<lparr>trace := trace s @ [DataSend d]\<rparr>)
      else (Inl SocketSendError, s))"

definition close_and_clear :: "'p session \<Rightarrow> (exn + unit) \<times> 'p session" where
  "close_and_clear s = (Inr (), s\<lparr>passive_client := None, trace := trace s @ [DataClose]\<rparr>)"

definition passive_reply ::
  "nat \<times> string \<Rightarrow> ('p session \<Rightarrow> (exn + pydata) \<times> 'p session) \<Rightarrow> nat \<times> string
   \<Rightarrow> 'p session \<Rightarrow> (exn + unit) \<times> 'p session" where
  "passive_reply before_reply data after_reply s =
     (case passive_client s of
        None \<Rightarrow> reply 425 ''Enter passive mode first'' s
      | Some pc \<Rightarrow>
          and_then (reply (fst before_reply) (snd before_reply)) (\<lambda>_.
          and_then data (\<lambda>d.
          and_then (to_bytes d) (\<lambda>b.
          and_then (data_send pc b) (\<lambda>_.
          and_then close_and_clear (\<lambda>_.
          reply (fst after_reply) (snd after_reply)))))) s)"

definition passive_read ::
  "nat \<times> string \<Rightarrow> (bytes \<Rightarrow> 'p session \<Rightarrow> (exn + unit) \<times> 'p session) \<Rightarrow> nat \<times> string
   \<Rightarrow> 'p session \<Rightarrow> (exn + unit) \<times> 'p session" where
  "passive_read before_read handle after_read s =
     (case passive_client s of
        None \<Rightarrow> reply 425 ''Enter passive mode first'' s
      | Some pc \<Rightarrow>
          and_then (reply (fst before_read) (snd before_read)) (\<lambda>_.
          and_then (handle (incoming pc)) (\<lambda>_.
          and_then close_and_clear (\<lambda>_.
          reply (fst after_read) (snd after_read)))) s)"

definition startswith :: "string \<Rightarrow> string \<Rightarrow> bool" where
  "startswith line p = (take (length p) line = p)"

definition split_space :: "string \<Rightarrow> (string \<times> string) option" where
  "split_space line =
     (if CHR '' '' \<in> set line
      then Some (takeWhile (\<lambda>c. c \<noteq> CHR '' '') line, tl (dropWhile (\<lambda>c. c \<noteq> CHR '' '') line))
      else None)"

definition parse_line :: "string \<Rightarrow> string \<times> string option" where
  "parse_line line =
     (case split_space line of Some (cmd, args) \<Rightarrow> (cmd, Some args) | None \<Rightarrow> (line, None))"

subsection \<open>The handlers, one per branch of the dispatch chain\<close>

definition do_CWD :: "'p provider \<Rightarrow> string option \<Rightarrow> 'p session \<Rightarrow> (exn + unit) \<times> 'p session" where
  "do_CWD P args =
     and_then (invoke (ChangeWorkDir args) (change_work_dir P args)) (\<lambda>ok.
       if ok then (case args of None \<Rightarrow> raise TypeError
                   | Some a \<Rightarrow> reply 250 (''dir changed to '' @ a))
       else reply 550 ''No such directory'')"

definition do_DELE :: "'p provider \<Rightarrow> string option \<Rightarrow> 'p session \<Rightarrow> (exn + unit) \<times> 'p session" where
  \<open>do_DELE P args =
     and_then (invoke (DelFile args) (del_file P args)) (\<lambda>_.
       reply 257 (''"'' @ str_arg args @ ''" File deleted''))\<close>

definition do_LIST :: "'p provider \<Rightarrow> 'p session \<Rightarrow> (exn + unit) \<times> 'p session" where
  "do_LIST P =
     passive_reply (150, ''Sending current directory listing'')
       (and_then (invoke Listdir (listdir P)) (\<lambda>d s. (Inr (Str d), s)))
       (226, ''Sent directory listing'')"

definition do_MKD :: "'p provider \<Rightarrow> string option \<Rightarrow> 'p session \<Rightarrow> (exn + unit) \<times> 'p session" where
  \<open>do_MKD P args =
     and_then (invoke (Mkdir args) (mkdir P args)) (\<lambda>_.
       reply 257 (''"'' @ str_arg args @ ''" Directory created''))\<close>

definition do_PASV :: "'p session \<Rightarrow> (exn + unit) \<times> 'p session" where
  "do_PASV s =
     (case pasv_env s (pasv_count s) of (port, peer) \<Rightarrow>
        and_then
          (reply 227 (''Entering passive mode (''
             @ map (\<lambda>c. if c = CHR ''.'' then CHR '','' else c) (local_ip s)
             @ '','' @ str_nat (port div 256) @ '','' @ str_nat (port mod 256) @ '')''))
          (\<lambda>_ s1. case peer of
                     None \<Rightarrow> (Inl SocketTimeout, s1)
                   | Some pc \<Rightarrow>
                       (Inr (), s1\<lparr>passive_client := Some pc, trace := trace s1 @ [DataAccept]\<rparr>))
          (s\<lparr>pasv_count := Suc (pasv_count s)\<rparr>))"

definition do_PWD :: "'p provider \<Rightarrow> 'p session \<Rightarrow> (exn + unit) \<times> 'p session" where
  \<open>do_PWD P =
     and_then (invoke GetWorkDir (get_work_dir P)) (\<lambda>d.
       reply 257 (''"'' @ d @ ''" Is the current dir''))\<close>

definition do_RMD :: "'p provider \<Rightarrow> string option \<Rightarrow> 'p session \<Rightarrow> (exn + unit) \<times> 'p session" where
  \<open>do_RMD P args =
     and_then (invoke (Rmdir args) (rmdir P args)) (\<lambda>_.
       reply 250 (''"'' @ str_arg args @ ''" Directory removed''))\<close>

definition do_RNFR :: "'p provider \<Rightarrow> string option \<Rightarrow> 'p session \<Rightarrow> (exn + unit) \<times> 'p session" where
  "do_RNFR P from_name =
     and_then (reply 350 ''Ready to rename'') (\<lambda>_ s1.
       case read_till_crlf (control_in s1) of (r, rest) \<Rightarrow>
         (case r of
            Inl e \<Rightarrow> (Inl e, s1\<lparr>control_in := rest\<rparr>)
          | Inr line \<Rightarrow>
              if line = [] \<or> \<not> startswith line ''RNTO''
              then (Inl ExpectingRNTO, s1\<lparr>control_in := rest\<rparr>)
              else (case split_space line of
                      None \<Rightarrow> (Inl ValueError, s1\<lparr>control_in := rest\<rparr>)
                    | Some (cmd, to_name) \<Rightarrow>
                        and_then (invoke (RenameFile from_name to_name)
                                    (rename_file P from_name to_name))
                          (\<lambda>_. reply 250 ''Renamed file'') (s1\<lparr>control_in := rest\<rparr>))))"

definition do_RETR :: "'p provider \<Rightarrow> string option \<Rightarrow> 'p session \<Rightarrow> (exn + unit) \<times> 'p session" where
  "do_RETR P args =
     and_then (invoke (GetSize args) (get_size P args)) (\<lambda>ret.
       if \<not> fst ret then reply 550 ''Not a file''
       else passive_reply (150, ''Sending binary file '' @ str_arg args)
              (and_then (invoke (GetFile args) (get_file P args)) (\<lambda>b s. (Inr (Bytes b), s)))
              (226, ''File transfer complete''))"

definition do_SIZE :: "'p provider \<Rightarrow> string option \<Rightarrow> 'p session \<Rightarrow> (exn + unit) \<times> 'p session" where
  "do_SIZE P args =
     and_then (invoke (GetSize args) (get_size P args)) (\<lambda>ret.
       if fst ret then reply 213 (snd ret) else reply 550 ''Could not get file size'')"

definition do_STOR :: "'p provider \<Rightarrow> string option \<Rightarrow> 'p session \<Rightarrow> (exn + unit) \<times> 'p session" where
  "do_STOR P file_name =
     passive_read (150, ''OK, send data'')
       (\<lambda>chunks. invoke (SaveFile file_name) (save_file P file_name chunks))
       (226, ''File store complete'')"

definition do_TYPE :: "string option \<Rightarrow> 'p session \<Rightarrow> (exn + unit) \<times> 'p session" where
  "do_TYPE args =
     (if args = Some ''I'' \<or> args = Some ''A'' then reply 200 ''OK''
      else reply 501 ''Unknown TYPE arg'')"

definition handle :: "'p provider \<Rightarrow> string \<Rightarrow> string option \<Rightarrow> 'p session \<Rightarrow> (exn + unit) \<times> 'p session" where
  "handle P cmd args =
     (if cmd = ''CWD'' then do_CWD P args
      else if cmd = ''DELE'' then do_DELE P args
      else if cmd = ''LIST'' then do_LIST P
      else if cmd = ''MKD'' \<or> cmd = ''XMKD'' then do_MKD P args
      else if cmd = ''NOOP'' \<or> cmd = ''noop'' then reply 200 ''NOOP OK''
      else if cmd = ''OPTS'' \<or> cmd = ''opts'' then reply 501 ''opts-bad''
      else if cmd = ''PASV'' then do_PASV
      else if cmd = ''PWD'' \<or> cmd = ''XPWD'' then do_PWD P
      else if cmd = ''QUIT'' then reply 221 ''OK Bye''
      else if cmd = ''RMD'' \<or> cmd = ''XRMD'' then do_RMD P args
      else if cmd = ''RNFR'' then do_RNFR P args
      else if cmd = ''RETR'' then do_RETR P args
      else if cmd = ''SIZE'' then do_SIZE P args
      else if cmd = ''STOR'' then do_STOR P args
      else if cmd = ''SYST'' then reply 213 ''WIN32''
      else if cmd = ''TYPE'' then do_TYPE args
      else if cmd = ''USER'' then reply 230 ''Login successful''
      else reply 501 ''Unknown cmd'')"

subsection \<open>The loop\<close>

text \<open>
  \<open>dispatch\<close> is the \<open>try\<close> statement around the chain: an exception of the handler
  is answered by \<open>reply(500, ...)\<close> in the \<open>except\<close> clause, and an exception of that
  reply would leave the loop. \<open>step\<close> is one iteration: it reads a line outside the
  \<open>try\<close>, so an exception of the reader leaves the loop; an empty line breaks out of
  it, and the clean-up closes a passive connection still held. The result \<open>None\<close>
  of \<open>step\<close> means that the loop goes on to its next iteration. \<open>serve_lines\<close> is the
  \<open>while True\<close> loop, and \<open>command_loop\<close> sends the greeting before it. Sending on
  the control connection is taken to succeed, and \<open>send\<close> on a data connection to
  transmit all of its argument or raise.
\<close>

datatype outcome = ClientClosed | Crashed exn

definition dispatch :: "'p provider \<Rightarrow> string \<Rightarrow> string option \<Rightarrow> 'p session \<Rightarrow> outcome option \<times> 'p session" where
  "dispatch P cmd args s =
     (case handle P cmd args s of
        (Inr _, s') \<Rightarrow> (None, s')
      | (Inl e, s') \<Rightarrow>
          (case reply 500 ''Error executing cmd'' s' of
             (Inr _, s'') \<Rightarrow> (None, s'')
           | (Inl e', s'') \<Rightarrow> (Some (Crashed e'), s'')))"

definition clean_up :: "'p session \<Rightarrow> 'p session" where
  "clean_up s =
     (case passive_client s of None \<Rightarrow> s | Some pc \<Rightarrow> s\<lparr>trace := trace s @ [DataClose]\<rparr>)"

definition step :: "'p provider \<Rightarrow> 'p session \<Rightarrow> outcome option \<times> 'p session" where
  "step P s =
     (case read_till_crlf (control_in s) of (r, rest) \<Rightarrow>
        (case r of
           Inl e \<Rightarrow> (Some (Crashed e), s\<lparr>control_in := rest\<rparr>)
         | Inr line \<Rightarrow>
             if line = [] then (Some ClientClosed, clean_up (s\<lparr>control_in := rest\<rparr>))
             else (case parse_line line of (cmd, args) \<Rightarrow>
                     dispatch P cmd args (s\<lparr>control_in := rest\<rparr>))))"

function serve_lines :: "'p provider \<Rightarrow> 'p session \<Rightarrow> outcome \<times> 'p session" where
  "serve_lines P s =
     (if fst (step P s) = None then serve_lines P (snd (step P s))
      else (the (fst (step P s)), snd (step P s)))"
  by pat_completeness auto

definition command_loop :: "'p provider \<Rightarrow> 'p session \<Rightarrow> outcome \<times> 'p session" where
  "command_loop P s =
     (case reply 220 (''Hello, '' @ SERVER_NAME) s of
        (Inl e, s') \<Rightarrow> (Crashed e, s')
      | (Inr _, s') \<Rightarrow> serve_lines P s')"


definition is_500 :: "event \<Rightarrow> bool" where
  "is_500 ev = (case ev of Reply status data \<Rightarrow> status = 500 | _ \<Rightarrow> False)"

definition new_session :: "string \<Rightarrow> (nat \<Rightarrow> nat \<times> data_conn option) \<Rightarrow> 'p \<Rightarrow> bytes \<Rightarrow> 'p session" where
  "new_session ip env p inp =
     \<lparr>control_in = inp, local_ip = ip, pasv_env = env, pasv_count = 0,
      passive_client = None, prov = p, trace = []\<rparr>"

subsection \<open>A provider kept in memory\<close>

text \<open>
  To run the loop on concrete inputs, a small implementation of the interface: a flat
  directory \<open>/\<close> of named files held in a list. Operations on a name that is not there
  raise, and there are no subdirectories to create or remove.
\<close>

type_synonym mem = "(string \<times> bytes) list"

definition mem_provider :: "mem provider" where
  "mem_provider =
     \<lparr>get_work_dir = (\<lambda>m. (Inr ''/'', m)),
      change_work_dir = (\<lambda>a m. (Inr (a = Some ''/''), m)),
      listdir = (\<lambda>m. (Inr (concat (map (\<lambda>x. fst x @ [CR, LF]) m)), m)),
      get_size = (\<lambda>a m. case a of
                     None \<Rightarrow> (Inl TypeError, m)
                   | Some n \<Rightarrow> (case map_of m n of
                                 None \<Rightarrow> (Inr (False, []), m)
                               | Some b \<Rightarrow> (Inr (True, str_nat (length b)), m))),
      get_file = (\<lambda>a m. case a of
                     None \<Rightarrow> (Inl TypeError, m)
                   | Some n \<Rightarrow> (case map_of m n of
                                 None \<Rightarrow> (Inl StorageError, m)
                               | Some b \<Rightarrow> (Inr b, m))),
      save_file = (\<lambda>a d m. case a of
                      None \<Rightarrow> (Inl TypeError, m)
                    | Some n \<Rightarrow> (Inr (), (n, d) # filter (\<lambda>x. fst x \<noteq> n) m)),
      rename_file = (\<lambda>a t m. case a of
                        None \<Rightarrow> (Inl TypeError, m)
                      | Some n \<Rightarrow> (case map_of m n of
                                    None \<Rightarrow> (Inl StorageError, m)
                                  | Some b \<Rightarrow>
                                      (Inr (), (t, b) # filter (\<lambda>x. fst x \<noteq> n \<and> fst x \<noteq> t) m))),
      del_file = (\<lambda>a m. case a of
                     None \<Rightarrow> (Inl TypeError, m)
                   | Some n \<Rightarrow> (case map_of m n of
                                 None \<Rightarrow> (Inl StorageError, m)
                               | Some b \<Rightarrow> (Inr (), filter (\<lambda>x. fst x \<noteq> n) m))),
      mkdir = (\<lambda>a m. (Inl StorageError, m)),
      rmdir = (\<lambda>a m. (Inl StorageError, m))\<rparr>"

subsection \<open>Environments and frame conditions used in the proofs\<close>

text \<open>
  Two environments for the passive listener: one where no peer connects within the
  timeout, and one where every \<open>PASV\<close> is answered by a peer with the given connection.
\<close>

definition refusing_env :: "nat \<Rightarrow> nat \<times> data_conn option" where
  "refusing_env n = (2121, None)"

definition accepting_env :: "data_conn \<Rightarrow> nat \<Rightarrow> nat \<times> data_conn option" where
  "accepting_env dc n = (2121, Some dc)"


text \<open>
  \<open>keeps_input f\<close>: the action \<open>f\<close> gives no bytes back to the control connection.
  \<open>no_500 f\<close>: the action \<open>f\<close> only appends events, none of them a 500 reply.
\<close>

definition keeps_input :: "('p session \<Rightarrow> 'a \<times> 'p session) \<Rightarrow> bool" where
  "keeps_input f = (\<forall>s. length (control_in (snd (f s))) \<le> length (control_in s))"

definition no_500 :: "('p session \<Rightarrow> 'a \<times> 'p session) \<Rightarrow> bool" where
  "no_500 f = (\<forall>s. \<exists>evs. trace (snd (f s)) = trace s @ evs \<and> filter is_500 evs = [])"

section \<open>The filesystem provider: \<open>FileSystemProvider\<close>\<close>

text \<open>
  \<open>str.replace('//', '/')\<close> scans from the left and replaces occurrences that do not
  overlap.
\<close>

fun replace_slashes :: "string \<Rightarrow> string" where
  "replace_slashes (a # b # cs) =
     (if a = CHR ''/'' \<and> b = CHR ''/'' then CHR ''/'' # replace_slashes cs
      else a # replace_slashes (b # cs))"
| "replace_slashes cs = cs"

fun has_double_slash :: "string \<Rightarrow> bool" where
  "has_double_slash (a # b # cs) = ((a = CHR ''/'' \<and> b = CHR ''/'') \<or> has_double_slash (b # cs))"
| "has_double_slash cs = False"

record FileSystemProvider =
  root_dir :: string
  working_dir :: string

text \<open>
  What the provider asks of the operating system and of the \<open>time\<close> module is a
  parameter: the directory test, the directory listing, \<open>os.stat\<close> (with the
  modification time already broken down by \<open>time.gmtime\<close>), \<open>time.strftime\<close>, and the
  current year.
\<close>

record tm =
  tm_year :: nat
  tm_mon :: nat
  tm_mday :: nat
  tm_hour :: nat
  tm_min :: nat

record stat =
  st_size :: nat
  st_mtime :: tm

record os_env =
  env_isdir :: "string \<Rightarrow> bool"
  env_listdir :: "string \<Rightarrow> exn + string list"
  env_stat :: "string \<Rightarrow> exn + stat"
  env_strftime :: "string \<Rightarrow> tm \<Rightarrow> string"
  env_year :: nat

definition fs_init :: "os_env \<Rightarrow> string \<Rightarrow> exn + FileSystemProvider" where
  "fs_init E root =
     (if env_isdir E (map (\<lambda>c. if c = CHR 0x5C then CHR ''/'' else c) root)
      then Inr \<lparr>root_dir = map (\<lambda>c. if c = CHR 0x5C then CHR ''/'' else c) root,
                working_dir = map (\<lambda>c. if c = CHR 0x5C then CHR ''/'' else c) root\<rparr>
      else Inl InvalidRootDir)"

definition fs_get_work_dir :: "FileSystemProvider \<Rightarrow> string" where
  "fs_get_work_dir P = working_dir P"

definition fs_normalize_path :: "FileSystemProvider \<Rightarrow> string option \<Rightarrow> exn + string" where
  "fs_normalize_path P path =
     (case path of
        None \<Rightarrow> Inl TypeError
      | Some p \<Rightarrow>
          if p = [] then Inl AssertionError
          else Inr (replace_slashes (replace_slashes
                 (root_dir P @ ''/'' @ (if hd p = CHR ''/'' then p else working_dir P @ ''/'' @ p)))))"

definition fs_change_work_dir ::
  "os_env \<Rightarrow> string option \<Rightarrow> FileSystemProvider \<Rightarrow> (exn + bool) \<times> FileSystemProvider" where
  "fs_change_work_dir E new_dir P =
     (case fs_normalize_path P new_dir of
        Inl e \<Rightarrow> (Inl e, P)
      | Inr nd \<Rightarrow>
          if env_isdir E nd
          then (Inr True, P\<lparr>working_dir := CHR ''/'' # drop (length (root_dir P)) nd\<rparr>)
          else (Inr False, P))"

text \<open>A sequence of \<open>change_work_dir\<close> calls on one provider, with the result of each.\<close>

fun cwd_run ::
  "os_env \<Rightarrow> string option list \<Rightarrow> FileSystemProvider \<Rightarrow> (exn + bool) list \<times> FileSystemProvider" where
  "cwd_run E [] P = ([], P)"
| "cwd_run E (d # ds) P =
     (case fs_change_work_dir E d P of
        (r, P') \<Rightarrow> (case cwd_run E ds P' of (rs, P'') \<Rightarrow> (r # rs, P'')))"

subsection \<open>\<open>listdir\<close>\<close>



subsection \<open>\<open>save_file\<close> and \<open>get_file\<close>\<close>

text \<open>
  The disk holds the content of each regular file by its path; whether a path can be
  opened for writing is the operating system's matter and a parameter. Opening with
  mode \<open>wb\<close> creates the file or truncates it, and each \<open>write\<close> appends.
  \<open>get_file_chunk\<close> is given by the values its successive calls return; once they are
  used up it returns the empty bytes object.
\<close>

record disk =
  files :: "string \<Rightarrow> bytes option"
  creatable :: "string \<Rightarrow> bool"

definition open_wb :: "disk \<Rightarrow> string \<Rightarrow> exn + disk" where
  "open_wb D path =
     (if creatable D path then Inr (D\<lparr>files := (files D)(path := Some [])\<rparr>) else Inl OSError)"

definition file_write :: "disk \<Rightarrow> string \<Rightarrow> bytes \<Rightarrow> disk" where
  "file_write D path data =
     D\<lparr>files := (files D)(path := Some ((case files D path of None \<Rightarrow> [] | Some old \<Rightarrow> old) @ data))\<rparr>"

fun save_loop :: "disk \<Rightarrow> string \<Rightarrow> bytes list \<Rightarrow> disk" where
  "save_loop D path [] = D"
| "save_loop D path (data # chunks) =
     (if data = [] then D else save_loop (file_write D path data) path chunks)"

definition fs_save_file ::
  "disk \<Rightarrow> FileSystemProvider \<Rightarrow> string option \<Rightarrow> bytes list \<Rightarrow> (exn + unit) \<times> disk" where
  "fs_save_file D P f chunks =
     (case fs_normalize_path P f of
        Inl e \<Rightarrow> (Inl e, D)
      | Inr path \<Rightarrow>
          (case open_wb D path of
             Inl e \<Rightarrow> (Inl e, D)
           | Inr D' \<Rightarrow> (Inr (), save_loop D' path chunks)))"

definition fs_get_file :: "disk \<Rightarrow> FileSystemProvider \<Rightarrow> string option \<Rightarrow> exn + bytes" where
  "fs_get_file D P f =
     (case fs_normalize_path P f of
        Inl e \<Rightarrow> Inl e
      | Inr path \<Rightarrow> (case files D path of None \<Rightarrow> Inl OSError | Some b \<Rightarrow> Inr b))"

section \<open>The Dropbox provider: \<open>DropboxProvider.listdir\<close>\<close>


definition epoch :: tm where
  "epoch = \<lparr>tm_year = 1970, tm_mon = 1, tm_mday = 1, tm_hour = 0, tm_min = 0\<rparr>"



subsection \<open>The listing format of the interface\<close>


text \<open>
  A sample environment: the root \<open>/srv\<close> holds one directory \<open>d\<close>, for which
  \<open>os.stat\<close> reports the size 4096, and one file \<open>f\<close> of 3 bytes.
\<close>

definition sample_strftime :: "string \<Rightarrow> tm \<Rightarrow> string" where
  "sample_strftime fmt t = (if fmt = ''%b %e %Y'' then ''Jan  1  1970'' else ''Jan  1 00:00'')"

definition sample_env :: os_env where
  "sample_env =
     \<lparr>env_isdir = (\<lambda>p. p = ''/srv'' \<or> p = ''/srv/'' \<or> p = ''/srv/d''),
      env_listdir = (\<lambda>p. if p = ''/srv/'' then Inr [''d'', ''f''] else Inl OSError),
      env_stat = (\<lambda>p. if p = ''/srv/d'' then Inr \<lparr>st_size = 4096, st_mtime = epoch\<rparr>
                       else if p = ''/srv/f'' then Inr \<lparr>st_size = 3, st_mtime = epoch\<rparr>
                       else Inl OSError),
      env_strftime = sample_strftime,
      env_year = 2024\<rparr>"

definition sample_disk :: disk where
  "sample_disk = \<lparr>files = (\<lambda>p. if p = ''/srv/f'' then Some ''old'' else None),
                  creatable = (\<lambda>p. p \<noteq> ''/srv/d'')\<rparr>"

text \<open>
  An environment for a root given with double slashes: \<open>//srv//data\<close> is a directory,
  and so is its subdirectory \<open>x\<close>.
\<close>

definition double_slash_env :: os_env where
  "double_slash_env =
     \<lparr>env_isdir = (\<lambda>p. p = ''//srv//data'' \<or> p = ''/srv/data'' \<or> p = ''/srv/data/x''),
      env_listdir = (\<lambda>p. Inl OSError),
      env_stat = (\<lambda>p. Inl OSError),
      env_strftime = sample_strftime,
      env_year = 2024\<rparr>"

section \<open>Properties of the line reader\<close>

lemma read_loop_line:
  "crlf_free p xs \<Longrightarrow> length buf + length xs < max_buf_len \<Longrightarrow>
   read_loop buf p (xs @ CR # LF # rest) = (Inr (buf @ xs @ [CR, LF]), rest)"
proof (induction xs arbitrary: buf p)
  case Nil
  then show ?case by (simp add: max_buf_len_def)
next
  case (Cons c cs)
  from Cons.prems have free: "crlf_free (c = CR) cs" and nolf: "\<not> (p \<and> c = LF)"
    by simp_all
  from Cons.prems have len: "length (buf @ [c]) + length cs < max_buf_len"
    by simp
  have small: "\<not> length buf > max_buf_len"
    using Cons.prems by simp
  show ?case
  proof (cases "c = CR")
    case True
    with Cons.IH [OF free len] small show ?thesis by simp
  next
    case False
    with Cons.IH [OF free len] small nolf show ?thesis by auto
  qed
qed

lemma read_loop_overflow:
  "crlf_free p xs \<Longrightarrow> max_buf_len < length buf + length xs \<Longrightarrow>
   fst (read_loop buf p (xs @ c # rest)) = Inl DataExceededLimit"
proof (induction xs arbitrary: buf p)
  case Nil
  then show ?case by simp
next
  case (Cons x xs)
  from Cons.prems have free: "crlf_free (x = CR) xs" and nolf: "\<not> (p \<and> x = LF)"
    by simp_all
  from Cons.prems have len: "max_buf_len < length (buf @ [x]) + length xs"
    by simp
  show ?case
  proof (cases "length buf > max_buf_len")
    case True
    then show ?thesis by simp
  next
    case False
    show ?thesis
    proof (cases "x = CR")
      case True
      with Cons.IH [OF free len] False show ?thesis by simp
    next
      case notcr: False
      with Cons.IH [OF free len] False nolf show ?thesis by auto
    qed
  qed
qed

lemma read_loop_limit_only:
  "fst (read_loop buf p inp) = Inl DataExceededLimit \<Longrightarrow>
   max_buf_len + 1 < length buf + length inp"
proof (induction inp arbitrary: buf p)
  case Nil
  then show ?case by (simp split: if_splits)
next
  case (Cons c cs)
  show ?case
  proof (cases "length buf > max_buf_len")
    case True
    then show ?thesis by simp
  next
    case False
    with Cons.prems have
      "fst (read_loop (buf @ [c]) True cs) = Inl DataExceededLimit \<or>
       fst (read_loop (buf @ [c]) False cs) = Inl DataExceededLimit"
      by (auto split: if_splits)
    then have "max_buf_len + 1 < length (buf @ [c]) + length cs"
      using Cons.IH by blast
    then show ?thesis by simp
  qed
qed

lemma crlf_free_snoc_CR: "crlf_free p xs \<Longrightarrow> crlf_free p (xs @ [CR])"
  by (induction xs arbitrary: p) auto

lemma crlf_free_replicate: "c \<noteq> LF \<Longrightarrow> crlf_free p (replicate n c)"
  by (induction n arbitrary: p) auto

lemma read_till_crlf_line:
  assumes "crlf_free False content" and "length content < max_buf_len"
  shows "read_till_crlf (content @ CR # LF # rest) = (decode_ascii content, rest)"
  using read_loop_line [OF assms(1), of "[]" rest] assms(2)
  by (simp add: read_till_crlf_def)

lemma read_till_crlf_too_long:
  assumes "crlf_free False content" and "max_buf_len \<le> length content"
  shows "fst (read_till_crlf (content @ CR # LF # rest)) = Inl DataExceededLimit"
proof -
  have "crlf_free False (content @ [CR])"
    using assms(1) by (rule crlf_free_snoc_CR)
  moreover have "max_buf_len < length ([]::bytes) + length (content @ [CR])"
    using assms(2) by simp
  ultimately have "fst (read_loop [] False ((content @ [CR]) @ LF # rest)) = Inl DataExceededLimit"
    by (rule read_loop_overflow)
  then have ov: "fst (read_loop [] False (content @ CR # LF # rest)) = Inl DataExceededLimit"
    by simp
  obtain r rest' where rl: "read_loop [] False (content @ CR # LF # rest) = (r, rest')"
    by (cases "read_loop [] False (content @ CR # LF # rest)")
  with ov have "r = Inl DataExceededLimit" by simp
  with rl show ?thesis
    by (simp add: read_till_crlf_def)
qed

lemma read_till_crlf_limit_only:
  assumes "fst (read_till_crlf inp) = Inl DataExceededLimit"
  shows "max_buf_len + 1 < length inp"
proof -
  obtain r rest where rl: "read_loop [] False inp = (r, rest)"
    by (cases "read_loop [] False inp")
  with assms have "r = Inl DataExceededLimit"
    by (auto simp: read_till_crlf_def decode_ascii_def split: sum.splits if_splits)
  with rl have "fst (read_loop [] False inp) = Inl DataExceededLimit"
    by simp
  from read_loop_limit_only [OF this] show ?thesis by simp
qed

text \<open>
  Claim C4, as the code has it. A line whose content holds no CR LF pair, only
  7-bit characters and at most 999 bytes is returned with its terminator stripped,
  with the bytes after the terminator left unread. With 1000 bytes of content or more
  the reader raises the length error instead: the buffer, which also takes the
  carriage return of the terminator, already holds more than 1000 bytes when the
  line feed arrives. The length error is raised only on an input of at least 1002
  bytes, that is, only once the buffer holds more than 1000 bytes and one more byte
  comes in.
\<close>

theorem read_till_crlf_ceiling:
  "(crlf_free False content \<and> list_all is_ascii content \<and> length content \<le> 999
      \<longrightarrow> read_till_crlf (content @ CR # LF # rest) = (Inr content, rest))
   \<and> (crlf_free False content \<and> 1000 \<le> length content
      \<longrightarrow> fst (read_till_crlf (content @ CR # LF # rest)) = Inl DataExceededLimit)
   \<and> (fst (read_till_crlf inp) = Inl DataExceededLimit \<longrightarrow> 1002 \<le> length inp)"
proof (intro conjI impI)
  assume "crlf_free False content \<and> list_all is_ascii content \<and> length content \<le> 999"
  then show "read_till_crlf (content @ CR # LF # rest) = (Inr content, rest)"
    using read_till_crlf_line [of content rest]
    by (simp add: max_buf_len_def decode_ascii_def)
next
  assume "crlf_free False content \<and> 1000 \<le> length content"
  then show "fst (read_till_crlf (content @ CR # LF # rest)) = Inl DataExceededLimit"
    using read_till_crlf_too_long [of content rest]
    by (simp add: max_buf_len_def)
next
  assume "fst (read_till_crlf inp) = Inl DataExceededLimit"
  from read_till_crlf_limit_only [OF this] show "1002 \<le> length inp"
    by (simp add: max_buf_len_def)
qed

theorem read_till_crlf_ceiling_witness:
  "read_till_crlf (''PWD'' @ CR # LF # ''NOOP'') = (Inr ''PWD'', ''NOOP'')
   \<and> fst (read_till_crlf (replicate 1000 (CHR ''a'') @ CR # LF # [])) = Inl DataExceededLimit
   \<and> 1002 \<le> length (replicate 1000 (CHR ''a'') @ CR # LF # [])"
proof -
  have a: "crlf_free False ''PWD'' \<and> list_all is_ascii ''PWD'' \<and> length ''PWD'' \<le> 999"
    by (simp add: is_ascii_def)
  have b: "crlf_free False (replicate 1000 (CHR ''a'')) \<and> 1000 \<le> length (replicate 1000 (CHR ''a''))"
    by (simp add: crlf_free_replicate)
  from a read_till_crlf_ceiling [of "''PWD''" "''NOOP''"]
  have 1: "read_till_crlf (''PWD'' @ CR # LF # ''NOOP'') = (Inr ''PWD'', ''NOOP'')"
    by blast
  from b read_till_crlf_ceiling [of "replicate 1000 (CHR ''a'')" "[]"]
  have 2: "fst (read_till_crlf (replicate 1000 (CHR ''a'') @ CR # LF # [])) = Inl DataExceededLimit"
    by blast
  from 2 read_till_crlf_ceiling [of _ _ "replicate 1000 (CHR ''a'') @ CR # LF # []"]
  have 3: "1002 \<le> length (replicate 1000 (CHR ''a'') @ CR # LF # [])"
    by blast
  from 1 2 3 show ?thesis by blast
qed

text \<open>
  Claim C4 as stated fails at a content of exactly 1000 bytes: it is within the
  stated ceiling, and the reader raises the length error.
\<close>

theorem read_till_crlf_1000_counterexample:
  "length (replicate 1000 (CHR ''a'')) \<le> 1000
   \<and> crlf_free False (replicate 1000 (CHR ''a''))
   \<and> fst (read_till_crlf (replicate 1000 (CHR ''a'') @ [CR, LF])) \<noteq> Inr (replicate 1000 (CHR ''a''))
   \<and> fst (read_till_crlf (replicate 1000 (CHR ''a'') @ [CR, LF])) = Inl DataExceededLimit"
proof -
  have free: "crlf_free False (replicate 1000 (CHR ''a''))"
    by (simp add: crlf_free_replicate)
  have "max_buf_len \<le> length (replicate 1000 (CHR ''a''))"
    by (simp add: max_buf_len_def)
  from read_till_crlf_too_long [OF free this, of "[]"]
  have "fst (read_till_crlf (replicate 1000 (CHR ''a'') @ [CR, LF])) = Inl DataExceededLimit"
    by simp
  with free show ?thesis by simp
qed

section \<open>The command loop returns\<close>

text \<open>
  Every iteration that goes on to the next one has consumed at least one byte of the
  control connection: the reader consumes a byte whenever it returns a non-empty line,
  and no handler gives bytes back. So the loop ends on every finite input.
\<close>

lemma read_loop_rest_le: "length (snd (read_loop buf p inp)) \<le> length inp"
  by (induction inp arbitrary: buf p) (auto simp: le_SucI)

lemma read_till_crlf_rest_le: "length (snd (read_till_crlf inp)) \<le> length inp"
proof -
  obtain r rest where rl: "read_loop [] False inp = (r, rest)"
    by (cases "read_loop [] False inp")
  then have "snd (read_till_crlf inp) = rest"
    by (simp add: read_till_crlf_def split: sum.splits)
  with rl read_loop_rest_le [of "[]" False inp] show ?thesis by simp
qed

lemma read_till_crlf_consumes:
  assumes "read_till_crlf inp = (Inr line, rest)" and "line \<noteq> []"
  shows "length rest < length inp"
proof (cases inp)
  case Nil
  with assms show ?thesis by (simp add: read_till_crlf_def decode_ascii_def)
next
  case (Cons c cs)
  have "length (snd (read_loop [] False (c # cs))) \<le> length cs"
    using read_loop_rest_le [of "[c]" _ cs]
    by (auto simp: max_buf_len_def)
  moreover have "snd (read_till_crlf inp) = snd (read_loop [] False inp)"
    by (cases "read_loop [] False inp") (simp add: read_till_crlf_def split: sum.splits)
  ultimately show ?thesis using assms Cons by simp
qed

lemma keeps_inputI: "(\<And>s. length (control_in (snd (f s))) \<le> length (control_in s)) \<Longrightarrow> keeps_input f"
  by (simp add: keeps_input_def)

lemma keeps_inputD: "keeps_input f \<Longrightarrow> length (control_in (snd (f s))) \<le> length (control_in s)"
  by (simp add: keeps_input_def)

lemma keeps_reply [simp]: "keeps_input (reply c d)"
  by (simp add: keeps_input_def reply_def)

lemma keeps_raise [simp]: "keeps_input (raise e)"
  by (simp add: keeps_input_def raise_def)

lemma keeps_invoke [simp]: "keeps_input (invoke c m)"
  by (simp add: keeps_input_def invoke_def split: prod.splits)

lemma keeps_and_then [intro]:
  assumes "keeps_input m" and "\<And>a. keeps_input (k a)"
  shows "keeps_input (and_then m k)"
proof (rule keeps_inputI)
  fix s
  obtain r s' where ms: "m s = (r, s')" by (cases "m s")
  have le1: "length (control_in s') \<le> length (control_in s)"
    using keeps_inputD [OF assms(1), of s] ms by simp
  show "length (control_in (snd (and_then m k s))) \<le> length (control_in s)"
  proof (cases r)
    case (Inl e)
    with ms le1 show ?thesis by (simp add: and_then_def)
  next
    case (Inr a)
    with ms have "and_then m k s = k a s'" by (simp add: and_then_def)
    with keeps_inputD [OF assms(2), of a s'] le1 show ?thesis by simp
  qed
qed

lemma keeps_to_bytes [simp]: "keeps_input (to_bytes d)"
  by (simp add: keeps_input_def to_bytes_def split: pydata.splits)

lemma keeps_data_send [simp]: "keeps_input (data_send pc d)"
  by (simp add: keeps_input_def data_send_def)

lemma keeps_close_and_clear [simp]: "keeps_input close_and_clear"
  by (simp add: keeps_input_def close_and_clear_def)

lemma keeps_return [simp]: "keeps_input (\<lambda>s. (Inr x, s))"
  by (simp add: keeps_input_def)

lemma keeps_passive_reply:
  assumes "keeps_input data"
  shows "keeps_input (passive_reply b data a)"
proof (rule keeps_inputI)
  fix s
  show "length (control_in (snd (passive_reply b data a s))) \<le> length (control_in s)"
  proof (cases "passive_client s")
    case None
    then show ?thesis by (simp add: passive_reply_def reply_def)
  next
    case (Some pc)
    have "keeps_input (and_then (reply (fst b) (snd b)) (\<lambda>_.
          and_then data (\<lambda>d.
          and_then (to_bytes d) (\<lambda>b.
          and_then (data_send pc b) (\<lambda>_.
          and_then close_and_clear (\<lambda>_.
          reply (fst a) (snd a)))))))"
      using assms by (intro keeps_and_then) simp_all
    from keeps_inputD [OF this, of s] Some show ?thesis
      by (simp add: passive_reply_def)
  qed
qed

lemma keeps_passive_read:
  assumes "\<And>c. keeps_input (h c)"
  shows "keeps_input (passive_read b h a)"
proof (rule keeps_inputI)
  fix s
  show "length (control_in (snd (passive_read b h a s))) \<le> length (control_in s)"
  proof (cases "passive_client s")
    case None
    then show ?thesis by (simp add: passive_read_def reply_def)
  next
    case (Some pc)
    have "keeps_input (and_then (reply (fst b) (snd b)) (\<lambda>_.
          and_then (h (incoming pc)) (\<lambda>_.
          and_then close_and_clear (\<lambda>_.
          reply (fst a) (snd a)))))"
      using assms by (intro keeps_and_then) simp_all
    from keeps_inputD [OF this, of s] Some show ?thesis
      by (simp add: passive_read_def)
  qed
qed

lemma keeps_do_CWD: "keeps_input (do_CWD P args)"
  unfolding do_CWD_def by (intro keeps_and_then) (simp_all split: option.splits)

lemma keeps_do_DELE: "keeps_input (do_DELE P args)"
  unfolding do_DELE_def by (intro keeps_and_then) simp_all

lemma keeps_do_LIST: "keeps_input (do_LIST P)"
  unfolding do_LIST_def by (intro keeps_passive_reply keeps_and_then) simp_all

lemma keeps_do_MKD: "keeps_input (do_MKD P args)"
  unfolding do_MKD_def by (intro keeps_and_then) simp_all

lemma keeps_do_PASV: "keeps_input do_PASV"
  by (rule keeps_inputI)
     (simp add: do_PASV_def and_then_def reply_def split: prod.splits option.splits sum.splits)

lemma keeps_do_PWD: "keeps_input (do_PWD P)"
  unfolding do_PWD_def by (intro keeps_and_then) simp_all

lemma keeps_do_RMD: "keeps_input (do_RMD P args)"
  unfolding do_RMD_def by (intro keeps_and_then) simp_all

lemma keeps_do_RETR: "keeps_input (do_RETR P args)"
  unfolding do_RETR_def
  by (intro keeps_and_then) (auto intro!: keeps_passive_reply keeps_and_then)

lemma keeps_do_SIZE: "keeps_input (do_SIZE P args)"
  unfolding do_SIZE_def by (intro keeps_and_then) simp_all

lemma keeps_do_STOR: "keeps_input (do_STOR P args)"
  unfolding do_STOR_def by (intro keeps_passive_read) simp_all

lemma keeps_do_TYPE: "keeps_input (do_TYPE args)"
  by (simp add: do_TYPE_def)

lemma keeps_rename_tail:
  "keeps_input (and_then (invoke (RenameFile f t) (rename_file P f t)) (\<lambda>_. reply 250 ''Renamed file''))"
  by (intro keeps_and_then) simp_all

lemma keeps_do_RNFR: "keeps_input (do_RNFR P args)"
  unfolding do_RNFR_def
proof (intro keeps_and_then keeps_reply keeps_inputI)
  fix a :: unit and s :: "'a session"
  obtain r rest where rt: "read_till_crlf (control_in s) = (r, rest)"
    by (cases "read_till_crlf (control_in s)")
  have le: "length rest \<le> length (control_in s)"
    using read_till_crlf_rest_le [of "control_in s"] rt by simp
  have tail: "\<And>f t. length (control_in (snd (and_then (invoke (RenameFile f t) (rename_file P f t))
                 (\<lambda>_. reply 250 ''Renamed file'') (s\<lparr>control_in := rest\<rparr>)))) \<le> length rest"
    using keeps_inputD [OF keeps_rename_tail, of _ _ P "s\<lparr>control_in := rest\<rparr>"] by simp
  show "length (control_in (snd (case read_till_crlf (control_in s) of
          (r, rest) \<Rightarrow>
            (case r of
               Inl e \<Rightarrow> (Inl e, s\<lparr>control_in := rest\<rparr>)
             | Inr line \<Rightarrow>
                 if line = [] \<or> \<not> startswith line ''RNTO''
                 then (Inl ExpectingRNTO, s\<lparr>control_in := rest\<rparr>)
                 else (case split_space line of
                         None \<Rightarrow> (Inl ValueError, s\<lparr>control_in := rest\<rparr>)
                       | Some (cmd, to_name) \<Rightarrow>
                           and_then (invoke (RenameFile args to_name)
                                       (rename_file P args to_name))
                             (\<lambda>_. reply 250 ''Renamed file'') (s\<lparr>control_in := rest\<rparr>))))))
        \<le> length (control_in s)"
    using le tail [of args] rt
    by (auto split: sum.splits option.splits prod.splits intro: order_trans)
qed

lemma keeps_handle: "keeps_input (handle P cmd args)"
  unfolding handle_def
  by (simp add: keeps_do_CWD keeps_do_DELE keeps_do_LIST keeps_do_MKD keeps_do_PASV keeps_do_PWD
      keeps_do_RMD keeps_do_RNFR keeps_do_RETR keeps_do_SIZE keeps_do_STOR keeps_do_TYPE)

lemma keeps_dispatch: "keeps_input (dispatch P cmd args)"
proof (rule keeps_inputI)
  fix s
  obtain r s' where h: "handle P cmd args s = (r, s')" by (cases "handle P cmd args s")
  have "length (control_in s') \<le> length (control_in s)"
    using keeps_inputD [OF keeps_handle, of P cmd args s] h by simp
  with h show "length (control_in (snd (dispatch P cmd args s))) \<le> length (control_in s)"
    by (cases r) (simp_all add: dispatch_def reply_def is_ascii_def)
qed

lemma step_decreases:
  assumes "fst (step P s) = None"
  shows "length (control_in (snd (step P s))) < length (control_in s)"
proof -
  obtain r rest where rt: "read_till_crlf (control_in s) = (r, rest)"
    by (cases "read_till_crlf (control_in s)")
  show ?thesis
  proof (cases r)
    case (Inl e)
    with rt assms show ?thesis by (simp add: step_def)
  next
    case (Inr line)
    show ?thesis
    proof (cases "line = []")
      case True
      with rt Inr assms show ?thesis by (simp add: step_def)
    next
      case False
      from read_till_crlf_consumes [OF rt [unfolded Inr] False]
      have lt: "length rest < length (control_in s)" .
      obtain cmd args where pl: "parse_line line = (cmd, args)" by (cases "parse_line line")
      have "step P s = dispatch P cmd args (s\<lparr>control_in := rest\<rparr>)"
        using rt Inr False pl by (simp add: step_def)
      with keeps_inputD [OF keeps_dispatch, of P cmd args "s\<lparr>control_in := rest\<rparr>"] lt
      show ?thesis by simp
    qed
  qed
qed

termination serve_lines
  by (relation "measure (\<lambda>(P, s). length (control_in s))") (auto dest: step_decreases)

declare serve_lines.simps [simp del]


section \<open>Single iterations of the loop\<close>

lemmas handler_defs = do_CWD_def do_DELE_def do_LIST_def do_MKD_def do_PASV_def do_PWD_def
  do_RMD_def do_RNFR_def do_RETR_def do_SIZE_def do_STOR_def do_TYPE_def
  passive_reply_def passive_read_def and_then_def invoke_def reply_def raise_def to_bytes_def
  data_send_def close_and_clear_def

lemmas reader_defs = read_till_crlf_def decode_ascii_def is_ascii_def max_buf_len_def
  parse_line_def split_space_def startswith_def

lemmas loop_defs = step_def dispatch_def handle_def clean_up_def new_session_def
  mem_provider_def refusing_env_def accepting_env_def

lemma step_line:
  assumes "read_till_crlf (control_in s) = (Inr line, rest)" and "line \<noteq> []"
    and "parse_line line = (cmd, args)"
  shows "step P s = dispatch P cmd args (s\<lparr>control_in := rest\<rparr>)"
  using assms by (simp add: step_def)

lemma step_reader_error:
  assumes "read_till_crlf (control_in s) = (Inl e, rest)"
  shows "step P s = (Some (Crashed e), s\<lparr>control_in := rest\<rparr>)"
  using assms by (simp add: step_def)

lemma serve_lines_continue:
  assumes "step P s = (None, s')"
  shows "serve_lines P s = serve_lines P s'"
  using assms by (subst serve_lines.simps) simp

lemma serve_lines_stop:
  assumes "step P s = (Some out, s')"
  shows "serve_lines P s = (out, s')"
  using assms by (subst serve_lines.simps) simp

lemma dispatch_ok:
  assumes "handle P cmd args s = (Inr u, s')"
  shows "dispatch P cmd args s = (None, s')"
  using assms by (simp add: dispatch_def)

lemma dispatch_exn:
  assumes "handle P cmd args s = (Inl e, s')"
  shows "dispatch P cmd args s = (None, s'\<lparr>trace := trace s' @ [Reply 500 ''Error executing cmd'']\<rparr>)"
  using assms by (simp add: dispatch_def reply_def is_ascii_def)

lemma read_loop_overflow_rest:
  "crlf_free p xs \<Longrightarrow> length buf + length xs = max_buf_len + 1 \<Longrightarrow>
   read_loop buf p (xs @ c # rest) = (Inl DataExceededLimit, rest)"
proof (induction xs arbitrary: buf p)
  case Nil
  then show ?case by simp
next
  case (Cons x xs)
  from Cons.prems have free: "crlf_free (x = CR) xs" and nolf: "\<not> (p \<and> x = LF)"
    by simp_all
  from Cons.prems have len: "length (buf @ [x]) + length xs = max_buf_len + 1"
    by simp
  from Cons.prems have small: "\<not> length buf > max_buf_len"
    by simp
  show ?case
  proof (cases "x = CR")
    case True
    with Cons.IH [OF free len] small show ?thesis by simp
  next
    case False
    with Cons.IH [OF free len] small nolf show ?thesis by auto
  qed
qed

lemma read_till_crlf_overflow_rest:
  assumes "crlf_free False xs" and "length xs = max_buf_len + 1"
  shows "read_till_crlf (xs @ c # rest) = (Inl DataExceededLimit, rest)"
  using read_loop_overflow_rest [OF assms(1), of "[]" c rest] assms(2)
  by (simp add: read_till_crlf_def)

lemma handle_RNFR_unfold:
  assumes "read_till_crlf (control_in s) = (r, rest)"
  shows "handle P ''RNFR'' from_name s =
     (case r of
        Inl e \<Rightarrow> (Inl e, s\<lparr>control_in := rest, trace := trace s @ [Reply 350 ''Ready to rename'']\<rparr>)
      | Inr line \<Rightarrow>
          if line = [] \<or> \<not> startswith line ''RNTO''
          then (Inl ExpectingRNTO, s\<lparr>control_in := rest, trace := trace s @ [Reply 350 ''Ready to rename'']\<rparr>)
          else (case split_space line of
                  None \<Rightarrow> (Inl ValueError, s\<lparr>control_in := rest, trace := trace s @ [Reply 350 ''Ready to rename'']\<rparr>)
                | Some (cmd, to_name) \<Rightarrow>
                    (case rename_file P from_name to_name (prov s) of
                       (Inl e, p') \<Rightarrow>
                         (Inl e, s\<lparr>control_in := rest, prov := p',
                                   trace := trace s @ [Reply 350 ''Ready to rename'', Call (RenameFile from_name to_name)]\<rparr>)
                     | (Inr u, p') \<Rightarrow>
                         (Inr (), s\<lparr>control_in := rest, prov := p',
                                   trace := trace s @ [Reply 350 ''Ready to rename'', Call (RenameFile from_name to_name),
                                                      Reply 250 ''Renamed file'']\<rparr>))))"
  using assms
  by (simp add: handle_def do_RNFR_def and_then_def reply_def invoke_def is_ascii_def
           split: sum.splits option.splits prod.splits)

section \<open>QUIT\<close>

lemma read_QUIT: "read_till_crlf (''QUIT'' @ CR # LF # rest) = (Inr ''QUIT'', rest)"
  by (simp add: reader_defs)

text \<open>
  Claim C1 says that after the 221 reply to \<open>QUIT\<close> no further command line is read.
  The \<open>QUIT\<close> branch only replies: it has no \<open>break\<close>, so the iteration ends like
  any other and the loop reads the next line. (The clean-up after the loop closes the
  control connection when the last line read is non-empty, which can only be meant for
  this case and is never reached.) What the code does: on a \<open>QUIT\<close> line the
  iteration appends the 221 reply and the loop goes on with the bytes after the line.
\<close>

theorem quit_keeps_reading:
  assumes "control_in s = ''QUIT'' @ CR # LF # rest"
  shows "step P s = (None, s\<lparr>control_in := rest, trace := trace s @ [Reply 221 ''OK Bye'']\<rparr>)
       \<and> serve_lines P s = serve_lines P (s\<lparr>control_in := rest, trace := trace s @ [Reply 221 ''OK Bye'']\<rparr>)"
proof -
  have rd: "read_till_crlf (control_in s) = (Inr ''QUIT'', rest)"
    using assms read_QUIT by simp
  have pl: "parse_line ''QUIT'' = (''QUIT'', None)"
    by (simp add: parse_line_def split_space_def)
  have "handle P ''QUIT'' None (s\<lparr>control_in := rest\<rparr>)
        = (Inr (), s\<lparr>control_in := rest, trace := trace s @ [Reply 221 ''OK Bye'']\<rparr>)"
    by (simp add: handle_def reply_def is_ascii_def)
  from dispatch_ok [OF this] step_line [OF rd _ pl, of P]
  have st: "step P s = (None, s\<lparr>control_in := rest, trace := trace s @ [Reply 221 ''OK Bye'']\<rparr>)"
    by simp
  from st serve_lines_continue [OF st] show ?thesis by simp
qed

text \<open>
  On the input \<open>QUIT\<close>, \<open>NOOP\<close> the server answers 221 and then still answers the
  \<open>NOOP\<close> with 200; the loop ends only because the peer closes the connection.
\<close>

theorem quit_keeps_reading_witness:
  "serve_lines mem_provider (new_session ''127.0.0.1'' refusing_env [] (''QUIT'' @ CR # LF # ''NOOP'' @ [CR, LF]))
   = (ClientClosed, (new_session ''127.0.0.1'' refusing_env [] [])
        \<lparr>trace := [Reply 221 ''OK Bye'', Reply 200 ''NOOP OK'']\<rparr>)"
proof -
  have c: "control_in (new_session ''127.0.0.1'' refusing_env ([]::mem) (''QUIT'' @ CR # LF # ''NOOP'' @ [CR, LF]))
    = ''QUIT'' @ CR # LF # ''NOOP'' @ [CR, LF]"
    by (simp add: new_session_def)
  from quit_keeps_reading [OF c, of mem_provider]
  show ?thesis
    by (simp add: serve_lines.simps loop_defs reader_defs handler_defs)
qed

section \<open>Lines over the length ceiling\<close>

text \<open>
  Claim C2, as the code has it. The loop reads its line outside the \<open>try\<close>
  statement. When that read raises the length error, the loop is left with the
  exception: no reply is appended and nothing more is read or dispatched. Only the read
  inside the \<open>RNFR\<close> handler is covered by the \<open>try\<close>: there the length error is
  answered by one 500 reply after the 350, and the loop goes on to its next iteration
  with the bytes left after the point where the reader gave up.
\<close>

theorem oversized_line_leaves_loop:
  assumes "read_till_crlf (control_in s) = (Inl DataExceededLimit, rest)"
  shows "serve_lines P s = (Crashed DataExceededLimit, s\<lparr>control_in := rest\<rparr>)
       \<and> dispatch P ''RNFR'' args s
           = (None, s\<lparr>control_in := rest,
                       trace := trace s @ [Reply 350 ''Ready to rename'', Reply 500 ''Error executing cmd'']\<rparr>)"
proof
  from step_reader_error [OF assms, of P]
  show "serve_lines P s = (Crashed DataExceededLimit, s\<lparr>control_in := rest\<rparr>)"
    by (rule serve_lines_stop)
next
  have "handle P ''RNFR'' args s
        = (Inl DataExceededLimit, s\<lparr>control_in := rest, trace := trace s @ [Reply 350 ''Ready to rename'']\<rparr>)"
    using assms by (simp add: handle_def do_RNFR_def and_then_def reply_def is_ascii_def)
  from dispatch_exn [OF this]
  show "dispatch P ''RNFR'' args s
           = (None, s\<lparr>control_in := rest,
                       trace := trace s @ [Reply 350 ''Ready to rename'', Reply 500 ''Error executing cmd'']\<rparr>)"
    by simp
qed

lemma read_1002:
  "read_till_crlf (replicate 1002 (CHR ''a'') @ rest) = (Inl DataExceededLimit, rest)"
proof -
  have "replicate (Suc 1001) (CHR ''a'') = replicate 1001 (CHR ''a'') @ [CHR ''a'']"
    by (simp only: replicate_Suc replicate_append_same)
  moreover have "Suc 1001 = 1002"
    by simp
  ultimately have "replicate 1002 (CHR ''a'') = replicate 1001 (CHR ''a'') @ [CHR ''a'']"
    by simp
  then have "replicate 1002 (CHR ''a'') @ rest = replicate 1001 (CHR ''a'') @ CHR ''a'' # rest"
    by simp
  moreover have "read_till_crlf (replicate 1001 (CHR ''a'') @ CHR ''a'' # rest) = (Inl DataExceededLimit, rest)"
    by (rule read_till_crlf_overflow_rest) (simp_all add: crlf_free_replicate max_buf_len_def)
  ultimately show ?thesis by simp
qed

text \<open>
  An input of 1002 letters before the terminator, read by the loop and read after \<open>RNFR\<close>.
\<close>

theorem oversized_line_leaves_loop_witness:
  "serve_lines mem_provider (new_session ''127.0.0.1'' refusing_env [] (replicate 1002 (CHR ''a'') @ CR # LF # ''NOOP'' @ [CR, LF]))
     = (Crashed DataExceededLimit, new_session ''127.0.0.1'' refusing_env [] (CR # LF # ''NOOP'' @ [CR, LF]))
   \<and> dispatch mem_provider ''RNFR'' (Some ''a'') (new_session ''127.0.0.1'' refusing_env [] (replicate 1002 (CHR ''a'') @ CR # LF # ''NOOP'' @ [CR, LF]))
     = (None, (new_session ''127.0.0.1'' refusing_env [] (CR # LF # ''NOOP'' @ [CR, LF]))
          \<lparr>trace := [Reply 350 ''Ready to rename'', Reply 500 ''Error executing cmd'']\<rparr>)"
proof -
  have r: "read_till_crlf (control_in (new_session ''127.0.0.1'' refusing_env ([]::mem) (replicate 1002 (CHR ''a'') @ CR # LF # ''NOOP'' @ [CR, LF])))
     = (Inl DataExceededLimit, CR # LF # ''NOOP'' @ [CR, LF])"
    using read_1002 [of "CR # LF # ''NOOP'' @ [CR, LF]"] by (simp add: new_session_def)
  from oversized_line_leaves_loop [OF r, of mem_provider "Some ''a''"]
  show ?thesis by (simp add: new_session_def)
qed

text \<open>
  Claim C2 as stated fails: a session whose first line has 1002 letters gets the
  greeting and nothing else, neither a 500 reply nor an answer to the \<open>NOOP\<close> that
  follows; \<open>command_loop\<close> ends with the exception.
\<close>

theorem oversized_line_counterexample:
  "command_loop mem_provider (new_session ''127.0.0.1'' refusing_env [] (replicate 1002 (CHR ''a'') @ CR # LF # ''NOOP'' @ [CR, LF]))
   = (Crashed DataExceededLimit,
      (new_session ''127.0.0.1'' refusing_env [] (CR # LF # ''NOOP'' @ [CR, LF]))
        \<lparr>trace := [Reply 220 (''Hello, '' @ SERVER_NAME)]\<rparr>)"
proof -
  let ?s = "(new_session ''127.0.0.1'' refusing_env ([]::mem) (replicate 1002 (CHR ''a'') @ CR # LF # ''NOOP'' @ [CR, LF]))
        \<lparr>trace := [Reply 220 (''Hello, '' @ SERVER_NAME)]\<rparr>"
  have r: "read_till_crlf (control_in ?s) = (Inl DataExceededLimit, CR # LF # ''NOOP'' @ [CR, LF])"
    using read_1002 [of "CR # LF # ''NOOP'' @ [CR, LF]"] by (simp add: new_session_def)
  have "serve_lines mem_provider ?s = (Crashed DataExceededLimit, ?s\<lparr>control_in := CR # LF # ''NOOP'' @ [CR, LF]\<rparr>)"
    by (rule serve_lines_stop [OF step_reader_error [OF r]])
  then show ?thesis
    by (simp add: command_loop_def reply_def is_ascii_def SERVER_NAME_def new_session_def)
qed

section \<open>Unrecognised verbs\<close>




section \<open>Handlers send no 500 reply themselves\<close>

lemma no_500I:
  "(\<And>s. \<exists>evs. trace (snd (f s)) = trace s @ evs \<and> filter is_500 evs = []) \<Longrightarrow> no_500 f"
  by (simp add: no_500_def)

lemma no_500D:
  "no_500 f \<Longrightarrow> \<exists>evs. trace (snd (f s)) = trace s @ evs \<and> filter is_500 evs = []"
  by (simp add: no_500_def)

lemma no_500_reply: "c \<noteq> 500 \<Longrightarrow> no_500 (reply c d)"
  by (rule no_500I) (simp add: reply_def is_500_def)

lemma no_500_raise [simp]: "no_500 (raise e)"
  by (rule no_500I) (simp add: raise_def)

lemma no_500_invoke [simp]: "no_500 (invoke c m)"
  by (rule no_500I) (simp add: invoke_def is_500_def split: prod.splits)

lemma no_500_to_bytes [simp]: "no_500 (to_bytes d)"
  by (rule no_500I) (simp add: to_bytes_def split: pydata.splits)

lemma no_500_data_send [simp]: "no_500 (data_send pc d)"
  by (rule no_500I) (simp add: data_send_def is_500_def)

lemma no_500_close_and_clear [simp]: "no_500 close_and_clear"
  by (rule no_500I) (simp add: close_and_clear_def is_500_def)

lemma no_500_return [simp]: "no_500 (\<lambda>s. (Inr x, s))"
  by (rule no_500I) simp

lemma no_500_and_then:
  assumes "no_500 m" and "\<And>a. no_500 (k a)"
  shows "no_500 (and_then m k)"
proof (rule no_500I)
  fix s
  obtain r s' where ms: "m s = (r, s')" by (cases "m s")
  from no_500D [OF assms(1), of s] ms obtain e1
    where e1: "trace s' = trace s @ e1" "filter is_500 e1 = []" by auto
  show "\<exists>evs. trace (snd (and_then m k s)) = trace s @ evs \<and> filter is_500 evs = []"
  proof (cases r)
    case (Inl e)
    with ms e1 show ?thesis by (simp add: and_then_def)
  next
    case (Inr a)
    with ms have eq: "and_then m k s = k a s'" by (simp add: and_then_def)
    from no_500D [OF assms(2), of a s'] obtain e2
      where e2: "trace (snd (k a s')) = trace s' @ e2" "filter is_500 e2 = []" by auto
    from eq e1 e2 have "trace (snd (and_then m k s)) = trace s @ (e1 @ e2) \<and> filter is_500 (e1 @ e2) = []"
      by simp
    then show ?thesis by blast
  qed
qed

lemma no_500_passive_reply:
  assumes "fst b \<noteq> 500" and "fst a \<noteq> 500" and "no_500 data"
  shows "no_500 (passive_reply b data a)"
proof (rule no_500I)
  fix s
  show "\<exists>evs. trace (snd (passive_reply b data a s)) = trace s @ evs \<and> filter is_500 evs = []"
  proof (cases "passive_client s")
    case None
    then show ?thesis by (simp add: passive_reply_def reply_def is_500_def)
  next
    case (Some pc)
    have "no_500 (and_then (reply (fst b) (snd b)) (\<lambda>_.
          and_then data (\<lambda>d.
          and_then (to_bytes d) (\<lambda>b.
          and_then (data_send pc b) (\<lambda>_.
          and_then close_and_clear (\<lambda>_.
          reply (fst a) (snd a)))))))"
      using assms by (intro no_500_and_then no_500_reply) simp_all
    from no_500D [OF this, of s] Some show ?thesis
      by (simp add: passive_reply_def)
  qed
qed

lemma no_500_passive_read:
  assumes "fst b \<noteq> 500" and "fst a \<noteq> 500" and "\<And>c. no_500 (h c)"
  shows "no_500 (passive_read b h a)"
proof (rule no_500I)
  fix s
  show "\<exists>evs. trace (snd (passive_read b h a s)) = trace s @ evs \<and> filter is_500 evs = []"
  proof (cases "passive_client s")
    case None
    then show ?thesis by (simp add: passive_read_def reply_def is_500_def)
  next
    case (Some pc)
    have "no_500 (and_then (reply (fst b) (snd b)) (\<lambda>_.
          and_then (h (incoming pc)) (\<lambda>_.
          and_then close_and_clear (\<lambda>_.
          reply (fst a) (snd a)))))"
      using assms by (intro no_500_and_then no_500_reply) simp_all
    from no_500D [OF this, of s] Some show ?thesis
      by (simp add: passive_read_def)
  qed
qed

lemma no_500_do_CWD: "no_500 (do_CWD P args)"
  unfolding do_CWD_def
  by (intro no_500_and_then) (simp_all add: no_500_reply split: option.splits)

lemma no_500_do_DELE: "no_500 (do_DELE P args)"
  unfolding do_DELE_def by (intro no_500_and_then no_500_reply) simp_all

lemma no_500_do_LIST: "no_500 (do_LIST P)"
  unfolding do_LIST_def by (intro no_500_passive_reply no_500_and_then) simp_all

lemma no_500_do_MKD: "no_500 (do_MKD P args)"
  unfolding do_MKD_def by (intro no_500_and_then no_500_reply) simp_all

lemma no_500_do_PASV: "no_500 do_PASV"
  by (rule no_500I)
     (simp add: do_PASV_def and_then_def reply_def is_500_def
           split: prod.splits option.splits sum.splits)

lemma no_500_do_PWD: "no_500 (do_PWD P)"
  unfolding do_PWD_def by (intro no_500_and_then no_500_reply) simp_all

lemma no_500_do_RMD: "no_500 (do_RMD P args)"
  unfolding do_RMD_def by (intro no_500_and_then no_500_reply) simp_all

lemma no_500_do_RETR: "no_500 (do_RETR P args)"
  unfolding do_RETR_def
  by (intro no_500_and_then)
     (auto intro!: no_500_passive_reply no_500_and_then no_500_reply)

lemma no_500_do_SIZE: "no_500 (do_SIZE P args)"
  unfolding do_SIZE_def by (intro no_500_and_then) (simp_all add: no_500_reply)

lemma no_500_do_STOR: "no_500 (do_STOR P args)"
  unfolding do_STOR_def by (intro no_500_passive_read) simp_all

lemma no_500_do_TYPE: "no_500 (do_TYPE args)"
  by (simp add: do_TYPE_def no_500_reply)

lemma no_500_rename_tail:
  "no_500 (and_then (invoke (RenameFile f t) (rename_file P f t)) (\<lambda>_. reply 250 ''Renamed file''))"
  by (intro no_500_and_then no_500_reply) simp_all

lemma no_500_do_RNFR: "no_500 (do_RNFR P args)"
proof (rule no_500I)
  fix s :: "'a session"
  let ?s1 = "s\<lparr>trace := trace s @ [Reply 350 ''Ready to rename'']\<rparr>"
  obtain r rest where rt: "read_till_crlf (control_in s) = (r, rest)"
    by (cases "read_till_crlf (control_in s)")
  let ?s2 = "?s1\<lparr>control_in := rest\<rparr>"
  have first: "\<not> is_500 (Reply 350 ''Ready to rename'')"
    by (simp add: is_500_def)
  have tail: "\<And>t. \<exists>evs. trace (snd (and_then (invoke (RenameFile args t) (rename_file P args t))
                 (\<lambda>_. reply 250 ''Renamed file'') ?s2)) = trace ?s2 @ evs \<and> filter is_500 evs = []"
    by (rule no_500D [OF no_500_rename_tail])
  have cases: "(\<exists>e. do_RNFR P args s = (Inl e, ?s2))
      \<or> (\<exists>t. do_RNFR P args s = and_then (invoke (RenameFile args t) (rename_file P args t))
                 (\<lambda>_. reply 250 ''Renamed file'') ?s2)"
    using rt
    by (auto simp: do_RNFR_def and_then_def reply_def is_ascii_def
             split: sum.splits option.splits)
  then show "\<exists>evs. trace (snd (do_RNFR P args s)) = trace s @ evs \<and> filter is_500 evs = []"
  proof
    assume "\<exists>e. do_RNFR P args s = (Inl e, ?s2)"
    then have "trace (snd (do_RNFR P args s)) = trace s @ [Reply 350 ''Ready to rename'']"
      by auto
    moreover have "filter is_500 [Reply 350 ''Ready to rename''] = []"
      using first by simp
    ultimately show ?thesis by blast
  next
    assume "\<exists>t. do_RNFR P args s = and_then (invoke (RenameFile args t) (rename_file P args t))
                 (\<lambda>_. reply 250 ''Renamed file'') ?s2"
    then obtain t where t: "do_RNFR P args s = and_then (invoke (RenameFile args t) (rename_file P args t))
                 (\<lambda>_. reply 250 ''Renamed file'') ?s2" by blast
    from tail [of t] obtain evs where
      evs: "trace (snd (and_then (invoke (RenameFile args t) (rename_file P args t))
                 (\<lambda>_. reply 250 ''Renamed file'') ?s2)) = trace ?s2 @ evs" "filter is_500 evs = []"
      by blast
    from t evs first have "trace (snd (do_RNFR P args s)) = trace s @ ([Reply 350 ''Ready to rename''] @ evs)
        \<and> filter is_500 ([Reply 350 ''Ready to rename''] @ evs) = []"
      by simp
    then show ?thesis by blast
  qed
qed

lemma no_500_handle: "no_500 (handle P cmd args)"
  unfolding handle_def
  by (simp add: no_500_do_CWD no_500_do_DELE no_500_do_LIST no_500_do_MKD no_500_do_PASV
      no_500_do_PWD no_500_do_RMD no_500_do_RNFR no_500_do_RETR no_500_do_SIZE no_500_do_STOR
      no_500_do_TYPE no_500_reply)

section \<open>Exceptions of a handler\<close>

text \<open>
  Claim C6. Whenever the handler of a dispatched command line raises, whatever the
  exception and whatever the provider did, the iteration ends with the reply
  \<open>500 Error executing cmd\<close> appended to what the handler had sent, the iteration
  has added exactly one 500 reply to the session, and the loop goes on to read the next
  line from the state the handler left.
\<close>

theorem handler_exception_one_500:
  assumes "read_till_crlf (control_in s) = (Inr line, rest)" and "line \<noteq> []"
    and "parse_line line = (cmd, args)"
    and "handle P cmd args (s\<lparr>control_in := rest\<rparr>) = (Inl e, s')"
  shows "step P s = (None, s'\<lparr>trace := trace s' @ [Reply 500 ''Error executing cmd'']\<rparr>)
       \<and> length (filter is_500 (trace (snd (step P s)))) = Suc (length (filter is_500 (trace s)))
       \<and> serve_lines P s = serve_lines P (s'\<lparr>trace := trace s' @ [Reply 500 ''Error executing cmd'']\<rparr>)"
proof -
  have st: "step P s = (None, s'\<lparr>trace := trace s' @ [Reply 500 ''Error executing cmd'']\<rparr>)"
    using step_line [OF assms(1-3), of P] dispatch_exn [OF assms(4)] by simp
  from no_500D [OF no_500_handle, of P cmd args "s\<lparr>control_in := rest\<rparr>"] assms(4)
  obtain evs where evs: "trace s' = trace s @ evs" "filter is_500 evs = []"
    by auto
  have "filter is_500 (trace s' @ [Reply 500 ''Error executing cmd''])
        = filter is_500 (trace s) @ [Reply 500 ''Error executing cmd'']"
    using evs by (simp add: is_500_def)
  with st have cnt: "length (filter is_500 (trace (snd (step P s)))) = Suc (length (filter is_500 (trace s)))"
    by simp
  from st cnt serve_lines_continue [OF st] show ?thesis by simp
qed

text \<open>
  Deleting a file that is not there raises in the provider; the \<open>NOOP\<close> after it is
  still answered.
\<close>

theorem handler_exception_one_500_witness:
  "step mem_provider (new_session ''127.0.0.1'' refusing_env [] (''DELE x'' @ CR # LF # ''NOOP'' @ [CR, LF]))
     = (None, (new_session ''127.0.0.1'' refusing_env [] (''NOOP'' @ [CR, LF]))
          \<lparr>trace := [Call (DelFile (Some ''x'')), Reply 500 ''Error executing cmd'']\<rparr>)
   \<and> length (filter is_500 (trace (snd (step mem_provider
         (new_session ''127.0.0.1'' refusing_env [] (''DELE x'' @ CR # LF # ''NOOP'' @ [CR, LF]))))))
     = Suc (length (filter is_500 (trace (new_session ''127.0.0.1'' refusing_env ([]::mem) (''DELE x'' @ CR # LF # ''NOOP'' @ [CR, LF])))))
   \<and> serve_lines mem_provider (new_session ''127.0.0.1'' refusing_env [] (''DELE x'' @ CR # LF # ''NOOP'' @ [CR, LF]))
     = (ClientClosed, (new_session ''127.0.0.1'' refusing_env [] [])
          \<lparr>trace := [Call (DelFile (Some ''x'')), Reply 500 ''Error executing cmd'', Reply 200 ''NOOP OK'']\<rparr>)"
proof -
  let ?s = "new_session ''127.0.0.1'' refusing_env ([]::mem) (''DELE x'' @ CR # LF # ''NOOP'' @ [CR, LF])"
  let ?s' = "(new_session ''127.0.0.1'' refusing_env ([]::mem) (''NOOP'' @ [CR, LF]))
          \<lparr>trace := [Call (DelFile (Some ''x''))]\<rparr>"
  have a: "read_till_crlf (control_in ?s) = (Inr ''DELE x'', ''NOOP'' @ [CR, LF])"
    by (simp add: new_session_def reader_defs)
  have b: "''DELE x'' \<noteq> []" by simp
  have c: "parse_line ''DELE x'' = (''DELE'', Some ''x'')"
    by (simp add: reader_defs)
  have d: "handle mem_provider ''DELE'' (Some ''x'') (?s\<lparr>control_in := ''NOOP'' @ [CR, LF]\<rparr>) = (Inl StorageError, ?s')"
    by (simp add: loop_defs handler_defs)
  have e: "serve_lines mem_provider (?s'\<lparr>trace := trace ?s' @ [Reply 500 ''Error executing cmd'']\<rparr>)
     = (ClientClosed, (new_session ''127.0.0.1'' refusing_env [] [])
          \<lparr>trace := [Call (DelFile (Some ''x'')), Reply 500 ''Error executing cmd'', Reply 200 ''NOOP OK'']\<rparr>)"
    by (simp add: serve_lines.simps loop_defs reader_defs handler_defs)
  from handler_exception_one_500 [OF a b c d] e show ?thesis
    by (simp add: new_session_def is_500_def)
qed

section \<open>The rename sequence\<close>

text \<open>
  After the 350 reply to \<open>RNFR\<close> the handler reads the next line itself. If that read
  raises, or the line is empty, does not begin with the letters \<open>RNTO\<close>, or holds no
  space, then the provider is not touched and a 500 reply follows. If the line is
  \<open>RNTO\<close>, a space and a target, \<open>rename_file\<close> is invoked once with the source of
  \<open>RNFR\<close> and that target; the reply is 250 when the provider returns and 500, from
  the \<open>except\<close> clause, when it raises.
\<close>

theorem rename_sequence:
  assumes "read_till_crlf (control_in s) = (r, rest)"
  shows "((\<exists>e. r = Inl e) \<or> (\<exists>line. r = Inr line \<and> (line = [] \<or> \<not> startswith line ''RNTO'' \<or> CHR '' '' \<notin> set line))
          \<longrightarrow> dispatch P ''RNFR'' from_name s
              = (None, s\<lparr>control_in := rest,
                          trace := trace s @ [Reply 350 ''Ready to rename'', Reply 500 ''Error executing cmd'']\<rparr>))
       \<and> (r = Inr (''RNTO '' @ to_name) \<and> rename_file P from_name to_name (prov s) = (Inr (), p')
          \<longrightarrow> dispatch P ''RNFR'' from_name s
              = (None, s\<lparr>control_in := rest, prov := p',
                          trace := trace s @ [Reply 350 ''Ready to rename'', Call (RenameFile from_name to_name),
                                             Reply 250 ''Renamed file'']\<rparr>))
       \<and> (r = Inr (''RNTO '' @ to_name) \<and> rename_file P from_name to_name (prov s) = (Inl e', p')
          \<longrightarrow> dispatch P ''RNFR'' from_name s
              = (None, s\<lparr>control_in := rest, prov := p',
                          trace := trace s @ [Reply 350 ''Ready to rename'', Call (RenameFile from_name to_name),
                                             Reply 500 ''Error executing cmd'']\<rparr>))"
proof (intro conjI impI)
  assume bad: "(\<exists>e. r = Inl e) \<or> (\<exists>line. r = Inr line \<and> (line = [] \<or> \<not> startswith line ''RNTO'' \<or> CHR '' '' \<notin> set line))"
  have "\<exists>e. handle P ''RNFR'' from_name s
          = (Inl e, s\<lparr>control_in := rest, trace := trace s @ [Reply 350 ''Ready to rename'']\<rparr>)"
    using bad by (auto simp: handle_RNFR_unfold [OF assms] split_space_def)
  then obtain e where "handle P ''RNFR'' from_name s
          = (Inl e, s\<lparr>control_in := rest, trace := trace s @ [Reply 350 ''Ready to rename'']\<rparr>)" ..
  from dispatch_exn [OF this]
  show "dispatch P ''RNFR'' from_name s
              = (None, s\<lparr>control_in := rest,
                          trace := trace s @ [Reply 350 ''Ready to rename'', Reply 500 ''Error executing cmd'']\<rparr>)"
    by simp
next
  assume ok: "r = Inr (''RNTO '' @ to_name) \<and> rename_file P from_name to_name (prov s) = (Inr (), p')"
  have "handle P ''RNFR'' from_name s
          = (Inr (), s\<lparr>control_in := rest, prov := p',
                          trace := trace s @ [Reply 350 ''Ready to rename'', Call (RenameFile from_name to_name),
                                             Reply 250 ''Renamed file'']\<rparr>)"
    using ok by (simp add: handle_RNFR_unfold [OF assms] split_space_def startswith_def)
  from dispatch_ok [OF this]
  show "dispatch P ''RNFR'' from_name s
              = (None, s\<lparr>control_in := rest, prov := p',
                          trace := trace s @ [Reply 350 ''Ready to rename'', Call (RenameFile from_name to_name),
                                             Reply 250 ''Renamed file'']\<rparr>)" .
next
  assume ko: "r = Inr (''RNTO '' @ to_name) \<and> rename_file P from_name to_name (prov s) = (Inl e', p')"
  have "handle P ''RNFR'' from_name s
          = (Inl e', s\<lparr>control_in := rest, prov := p',
                          trace := trace s @ [Reply 350 ''Ready to rename'', Call (RenameFile from_name to_name)]\<rparr>)"
    using ko by (simp add: handle_RNFR_unfold [OF assms] split_space_def startswith_def)
  from dispatch_exn [OF this]
  show "dispatch P ''RNFR'' from_name s
              = (None, s\<lparr>control_in := rest, prov := p',
                          trace := trace s @ [Reply 350 ''Ready to rename'', Call (RenameFile from_name to_name),
                                             Reply 500 ''Error executing cmd'']\<rparr>)"
    by simp
qed

text \<open>
  \<open>RNFR a\<close> followed by \<open>NOOP\<close>; by \<open>RNTO b\<close> with a file \<open>a\<close>; and by \<open>RNTO b\<close>
  without one.
\<close>

theorem rename_sequence_witness:
  "dispatch mem_provider ''RNFR'' (Some ''a'') (new_session ''127.0.0.1'' refusing_env [(''a'', ''xyz'')] (''NOOP'' @ [CR, LF]))
     = (None, (new_session ''127.0.0.1'' refusing_env [(''a'', ''xyz'')] [])
          \<lparr>trace := [Reply 350 ''Ready to rename'', Reply 500 ''Error executing cmd'']\<rparr>)
   \<and> dispatch mem_provider ''RNFR'' (Some ''a'') (new_session ''127.0.0.1'' refusing_env [(''a'', ''xyz'')] (''RNTO b'' @ [CR, LF]))
     = (None, (new_session ''127.0.0.1'' refusing_env [(''b'', ''xyz'')] [])
          \<lparr>trace := [Reply 350 ''Ready to rename'', Call (RenameFile (Some ''a'') ''b''), Reply 250 ''Renamed file'']\<rparr>)
   \<and> dispatch mem_provider ''RNFR'' (Some ''a'') (new_session ''127.0.0.1'' refusing_env [] (''RNTO b'' @ [CR, LF]))
     = (None, (new_session ''127.0.0.1'' refusing_env [] [])
          \<lparr>trace := [Reply 350 ''Ready to rename'', Call (RenameFile (Some ''a'') ''b''), Reply 500 ''Error executing cmd'']\<rparr>)"
proof -
  let ?s1 = "new_session ''127.0.0.1'' refusing_env [(''a'', ''xyz'')] (''NOOP'' @ [CR, LF])"
  let ?s2 = "new_session ''127.0.0.1'' refusing_env [(''a'', ''xyz'')] (''RNTO b'' @ [CR, LF])"
  let ?s3 = "new_session ''127.0.0.1'' refusing_env ([]::mem) (''RNTO b'' @ [CR, LF])"
  have r1: "read_till_crlf (control_in ?s1) = (Inr ''NOOP'', [])"
    by (simp add: new_session_def reader_defs)
  have b1: "(\<exists>e. (Inr ''NOOP'' :: exn + string) = Inl e)
      \<or> (\<exists>line. (Inr ''NOOP'' :: exn + string) = Inr line
            \<and> (line = [] \<or> \<not> startswith line ''RNTO'' \<or> CHR '' '' \<notin> set line))"
    by (simp add: startswith_def)
  have r2: "read_till_crlf (control_in ?s2) = (Inr (''RNTO '' @ ''b''), [])"
    by (simp add: new_session_def reader_defs)
  have ok2: "rename_file mem_provider (Some ''a'') ''b'' (prov ?s2) = (Inr (), [(''b'', ''xyz'')])"
    by (simp add: new_session_def mem_provider_def)
  have r3: "read_till_crlf (control_in ?s3) = (Inr (''RNTO '' @ ''b''), [])"
    by (simp add: new_session_def reader_defs)
  have ko3: "rename_file mem_provider (Some ''a'') ''b'' (prov ?s3) = (Inl StorageError, [])"
    by (simp add: new_session_def mem_provider_def)
  from rename_sequence [where P = mem_provider and from_name = "Some ''a''", OF r1] b1
  have 1: "dispatch mem_provider ''RNFR'' (Some ''a'') ?s1
     = (None, ?s1\<lparr>control_in := [], trace := trace ?s1 @ [Reply 350 ''Ready to rename'', Reply 500 ''Error executing cmd'']\<rparr>)"
    by blast
  from rename_sequence [where P = mem_provider and from_name = "Some ''a''" and to_name = "''b''"
      and p' = "[(''b'', ''xyz'')]", OF r2] ok2
  have 2: "dispatch mem_provider ''RNFR'' (Some ''a'') ?s2
     = (None, ?s2\<lparr>control_in := [], prov := [(''b'', ''xyz'')],
           trace := trace ?s2 @ [Reply 350 ''Ready to rename'', Call (RenameFile (Some ''a'') ''b''), Reply 250 ''Renamed file'']\<rparr>)"
    by blast
  from rename_sequence [where P = mem_provider and from_name = "Some ''a''" and to_name = "''b''"
      and e' = StorageError and p' = "[]", OF r3] ko3
  have 3: "dispatch mem_provider ''RNFR'' (Some ''a'') ?s3
     = (None, ?s3\<lparr>control_in := [], prov := [],
           trace := trace ?s3 @ [Reply 350 ''Ready to rename'', Call (RenameFile (Some ''a'') ''b''), Reply 500 ''Error executing cmd'']\<rparr>)"
    by blast
  from 1 2 3 show ?thesis by (simp add: new_session_def)
qed

text \<open>
  Claim C3 says that after \<open>RNFR\<close> any line other than an \<open>RNTO\<close> command with a target
  performs no rename and is answered by a 500-class reply. The handler raises
  \<open>Expecting RNTO command after RNFR\<close> only when the line does not begin with the
  letters \<open>RNTO\<close>: it tests \<open>line.startswith('RNTO')\<close> and never compares the verb that
  the split yields. What the code does: whenever the line begins with \<open>RNTO\<close> and holds a
  space, whatever its verb is, \<open>rename_file\<close> is invoked with what follows the first
  space, and the reply is 250 when the provider returns.
\<close>

theorem rnto_prefix_test_renames:
  assumes "read_till_crlf (control_in s) = (Inr line, rest)"
    and "startswith line ''RNTO''"
    and "split_space line = Some (cmd, to_name)"
    and "rename_file P from_name to_name (prov s) = (Inr (), p')"
  shows "dispatch P ''RNFR'' from_name s
           = (None, s\<lparr>control_in := rest, prov := p',
                       trace := trace s @ [Reply 350 ''Ready to rename'',
                                          Call (RenameFile from_name to_name),
                                          Reply 250 ''Renamed file'']\<rparr>)"
proof -
  from assms(2) have ne: "line \<noteq> []"
    by (auto simp: startswith_def)
  have "handle P ''RNFR'' from_name s
          = (Inr (), s\<lparr>control_in := rest, prov := p',
                       trace := trace s @ [Reply 350 ''Ready to rename'',
                                          Call (RenameFile from_name to_name),
                                          Reply 250 ''Renamed file'']\<rparr>)"
    using ne assms(2-4) by (simp add: handle_RNFR_unfold [OF assms(1)])
  then show ?thesis
    by (rule dispatch_ok)
qed

text \<open>
  The line \<open>RNTOX b\<close> after \<open>RNFR a\<close>: its verb is \<open>RNTOX\<close>, the file \<open>a\<close> is renamed to
  \<open>b\<close>, and the reply is 250.
\<close>

theorem rnto_prefix_test_renames_witness:
  "parse_line ''RNTOX b'' = (''RNTOX'', Some ''b'') \<and> ''RNTOX'' \<noteq> ''RNTO''
   \<and> dispatch mem_provider ''RNFR'' (Some ''a'')
        (new_session ''127.0.0.1'' refusing_env [(''a'', ''xyz'')] (''RNTOX b'' @ [CR, LF]))
      = (None, (new_session ''127.0.0.1'' refusing_env [(''b'', ''xyz'')] [])
           \<lparr>trace := [Reply 350 ''Ready to rename'', Call (RenameFile (Some ''a'') ''b''),
                      Reply 250 ''Renamed file'']\<rparr>)
   \<and> serve_lines mem_provider
        (new_session ''127.0.0.1'' refusing_env [(''a'', ''xyz'')] (''RNFR a'' @ CR # LF # ''RNTOX b'' @ [CR, LF]))
      = (ClientClosed, (new_session ''127.0.0.1'' refusing_env [(''b'', ''xyz'')] [])
           \<lparr>trace := [Reply 350 ''Ready to rename'', Call (RenameFile (Some ''a'') ''b''),
                      Reply 250 ''Renamed file'']\<rparr>)"
proof -
  let ?s = "new_session ''127.0.0.1'' refusing_env [(''a'', ''xyz'')] (''RNTOX b'' @ [CR, LF])"
  have rd: "read_till_crlf (control_in ?s) = (Inr ''RNTOX b'', [])"
    by (simp add: new_session_def reader_defs)
  have sw: "startswith ''RNTOX b'' ''RNTO''"
    by (simp add: startswith_def)
  have sp: "split_space ''RNTOX b'' = Some (''RNTOX'', ''b'')"
    by (simp add: split_space_def)
  have rn: "rename_file mem_provider (Some ''a'') ''b'' (prov ?s) = (Inr (), [(''b'', ''xyz'')])"
    by (simp add: new_session_def mem_provider_def)
  have pl: "parse_line ''RNTOX b'' = (''RNTOX'', Some ''b'') \<and> ''RNTOX'' \<noteq> ''RNTO''"
    by (simp add: parse_line_def split_space_def)
  have 1: "dispatch mem_provider ''RNFR'' (Some ''a'') ?s
      = (None, ?s\<lparr>control_in := [], prov := [(''b'', ''xyz'')],
           trace := trace ?s @ [Reply 350 ''Ready to rename'', Call (RenameFile (Some ''a'') ''b''),
                                Reply 250 ''Renamed file'']\<rparr>)"
    by (rule rnto_prefix_test_renames [OF rd sw sp rn])
  have a: "dispatch mem_provider ''RNFR'' (Some ''a'') ?s
      = (None, (new_session ''127.0.0.1'' refusing_env [(''b'', ''xyz'')] [])
           \<lparr>trace := [Reply 350 ''Ready to rename'', Call (RenameFile (Some ''a'') ''b''),
                      Reply 250 ''Renamed file'']\<rparr>)"
    using 1 by (simp add: new_session_def)
  have b: "serve_lines mem_provider
        (new_session ''127.0.0.1'' refusing_env [(''a'', ''xyz'')] (''RNFR a'' @ CR # LF # ''RNTOX b'' @ [CR, LF]))
      = (ClientClosed, (new_session ''127.0.0.1'' refusing_env [(''b'', ''xyz'')] [])
           \<lparr>trace := [Reply 350 ''Ready to rename'', Call (RenameFile (Some ''a'') ''b''),
                      Reply 250 ''Renamed file'']\<rparr>)"
    by (simp add: serve_lines.simps loop_defs reader_defs handler_defs)
  show ?thesis
    by (intro conjI) (rule pl [THEN conjunct1] pl [THEN conjunct2] a b)+
qed

section \<open>The passive data channel\<close>












section \<open>The working directory of the filesystem provider\<close>

lemma replace_slashes_prefix:
  "\<not> has_double_slash r \<Longrightarrow> take (length r) (replace_slashes (r @ s)) = r"
proof (induction r rule: has_double_slash.induct)
  fix a b cs
  assume "\<not> has_double_slash (b # cs) \<Longrightarrow>
            take (length (b # cs)) (replace_slashes ((b # cs) @ s)) = b # cs"
    and "\<not> has_double_slash (a # b # cs)"
  then show "take (length (a # b # cs)) (replace_slashes ((a # b # cs) @ s)) = a # b # cs"
    by auto
next
  show "take (length ([]::string)) (replace_slashes ([] @ s)) = []"
    by simp
next
  fix v
  show "take (length [v]) (replace_slashes ([v] @ s)) = [v]"
    by (cases s) auto
qed

lemma replace_slashes_prefix_twice:
  assumes "\<not> has_double_slash r"
  shows "take (length r) (replace_slashes (replace_slashes (r @ s))) = r"
proof -
  from replace_slashes_prefix [OF assms, of s]
  have "replace_slashes (r @ s) = r @ drop (length r) (replace_slashes (r @ s))"
    by (metis append_take_drop_id)
  then have "replace_slashes (replace_slashes (r @ s))
      = replace_slashes (r @ drop (length r) (replace_slashes (r @ s)))"
    by simp
  with replace_slashes_prefix [OF assms] show ?thesis by simp
qed

lemma normalize_path_prefix:
  assumes "\<not> has_double_slash (root_dir P)" and "fs_normalize_path P d = Inr nd"
  shows "take (length (root_dir P)) nd = root_dir P"
  using assms replace_slashes_prefix_twice [of "root_dir P"]
  by (auto simp: fs_normalize_path_def split: option.splits if_splits)

lemma change_work_dir_cases:
  "(\<exists>nd. fs_normalize_path P d = Inr nd \<and> env_isdir E nd
        \<and> fs_change_work_dir E d P = (Inr True, P\<lparr>working_dir := CHR ''/'' # drop (length (root_dir P)) nd\<rparr>))
   \<or> (fst (fs_change_work_dir E d P) \<noteq> Inr True \<and> snd (fs_change_work_dir E d P) = P)"
  by (auto simp: fs_change_work_dir_def split: sum.splits)

lemma change_work_dir_root: "root_dir (snd (fs_change_work_dir E d P)) = root_dir P"
  using change_work_dir_cases [of P d E] by auto

lemma cwd_run_root: "root_dir (snd (cwd_run E ds P)) = root_dir P"
proof (induction ds arbitrary: P)
  case Nil
  then show ?case by simp
next
  case (Cons d ds)
  obtain r P' where c: "fs_change_work_dir E d P = (r, P')"
    by (cases "fs_change_work_dir E d P")
  obtain rs P'' where rr: "cwd_run E ds P' = (rs, P'')"
    by (cases "cwd_run E ds P'")
  from Cons.IH [of P'] rr change_work_dir_root [of E d P] c show ?case by simp
qed

lemma cwd_run_none:
  "Inr True \<notin> set (fst (cwd_run E ds P)) \<Longrightarrow> snd (cwd_run E ds P) = P"
proof (induction ds arbitrary: P)
  case Nil
  then show ?case by simp
next
  case (Cons d ds)
  obtain r P' where c: "fs_change_work_dir E d P = (r, P')"
    by (cases "fs_change_work_dir E d P")
  obtain rs P'' where rr: "cwd_run E ds P' = (rs, P'')"
    by (cases "cwd_run E ds P'")
  from Cons.prems c rr have nr: "r \<noteq> Inr True" and nrs: "Inr True \<notin> set (fst (cwd_run E ds P'))"
    by auto
  from change_work_dir_cases [of P d E] c nr have "P' = P" by auto
  with Cons.IH [OF nrs] c rr show ?case by simp
qed

lemma cwd_run_some:
  "Inr True \<in> set (fst (cwd_run E ds P)) \<Longrightarrow>
   \<exists>nd. env_isdir E nd \<and> working_dir (snd (cwd_run E ds P)) = CHR ''/'' # drop (length (root_dir P)) nd"
proof (induction ds arbitrary: P)
  case Nil
  then show ?case by simp
next
  case (Cons d ds)
  obtain r P' where c: "fs_change_work_dir E d P = (r, P')"
    by (cases "fs_change_work_dir E d P")
  obtain rs P'' where rr: "cwd_run E ds P' = (rs, P'')"
    by (cases "cwd_run E ds P'")
  have root: "root_dir P' = root_dir P"
    using change_work_dir_root [of E d P] c by simp
  show ?case
  proof (cases "Inr True \<in> set (fst (cwd_run E ds P'))")
    case True
    from Cons.IH [OF True] root c rr show ?thesis by simp
  next
    case False
    with Cons.prems c rr have rt: "r = Inr True" by auto
    from cwd_run_none [OF False] rr have same: "P'' = P'" by simp
    from change_work_dir_cases [of P d E] c rt
    obtain nd where "env_isdir E nd" "P' = P\<lparr>working_dir := CHR ''/'' # drop (length (root_dir P)) nd\<rparr>"
      by auto
    with same c rr show ?thesis by auto
  qed
qed

text \<open>
  A provider constructed on a root directory returns that directory (with
  backslashes turned into slashes) as its working directory, and keeps returning it
  as long as no \<open>change_work_dir\<close> succeeds. A \<open>change_work_dir\<close> that succeeds stores a
  slash followed by the normalised path of its target without its first
  \<open>len(root_dir)\<close> characters, and leaves the root as it is; so after any sequence of
  calls of which one succeeded, the working directory begins with a slash and is the
  remainder of a path that is a directory. The characters dropped are the root itself
  whenever the root holds no double slash.
\<close>

theorem fs_work_dir_root_relative:
  "(fs_init E r = Inr P0
      \<longrightarrow> fs_get_work_dir P0 = root_dir P0
          \<and> root_dir P0 = map (\<lambda>c. if c = CHR 0x5C then CHR ''/'' else c) r)
   \<and> (Inr True \<notin> set (fst (cwd_run E ds P))
      \<longrightarrow> fs_get_work_dir (snd (cwd_run E ds P)) = fs_get_work_dir P)
   \<and> (Inr True \<in> set (fst (cwd_run E ds P))
      \<longrightarrow> (\<exists>nd. env_isdir E nd
             \<and> fs_get_work_dir (snd (cwd_run E ds P)) = CHR ''/'' # drop (length (root_dir P)) nd))
   \<and> (fs_change_work_dir E d P = (Inr True, P')
      \<longrightarrow> (\<exists>nd. fs_normalize_path P d = Inr nd \<and> env_isdir E nd
             \<and> working_dir P' = CHR ''/'' # drop (length (root_dir P)) nd
             \<and> root_dir P' = root_dir P))
   \<and> (\<not> has_double_slash (root_dir P) \<and> fs_normalize_path P d = Inr nd
      \<longrightarrow> take (length (root_dir P)) nd = root_dir P)"
proof -
  have p1: "fs_init E r = Inr P0
      \<longrightarrow> fs_get_work_dir P0 = root_dir P0
          \<and> root_dir P0 = map (\<lambda>c. if c = CHR 0x5C then CHR ''/'' else c) r"
    by (auto simp: fs_init_def fs_get_work_dir_def split: if_splits)
  have p2: "Inr True \<notin> set (fst (cwd_run E ds P))
      \<longrightarrow> fs_get_work_dir (snd (cwd_run E ds P)) = fs_get_work_dir P"
    using cwd_run_none [of E ds P] by simp
  have p3: "Inr True \<in> set (fst (cwd_run E ds P))
      \<longrightarrow> (\<exists>nd. env_isdir E nd
             \<and> fs_get_work_dir (snd (cwd_run E ds P)) = CHR ''/'' # drop (length (root_dir P)) nd)"
    using cwd_run_some [of E ds P] by (simp add: fs_get_work_dir_def)
  have p4: "fs_change_work_dir E d P = (Inr True, P')
      \<longrightarrow> (\<exists>nd. fs_normalize_path P d = Inr nd \<and> env_isdir E nd
             \<and> working_dir P' = CHR ''/'' # drop (length (root_dir P)) nd
             \<and> root_dir P' = root_dir P)"
    using change_work_dir_cases [of P d E] by auto
  have p5: "\<not> has_double_slash (root_dir P) \<and> fs_normalize_path P d = Inr nd
      \<longrightarrow> take (length (root_dir P)) nd = root_dir P"
    using normalize_path_prefix [of P d nd] by blast
  show ?thesis
    by (intro conjI) (rule p1 p2 p3 p4 p5)+
qed

text \<open>
  On the root \<open>/srv\<close>: a change to a directory that does not exist leaves the working
  directory \<open>/srv\<close>, and a change to \<open>/d\<close> makes it \<open>//d\<close>.
\<close>

theorem fs_work_dir_root_relative_witness:
  "fs_get_work_dir \<lparr>root_dir = ''/srv'', working_dir = ''/srv''\<rparr> = ''/srv''
   \<and> fs_get_work_dir (snd (cwd_run sample_env [Some ''nosuch''] \<lparr>root_dir = ''/srv'', working_dir = ''/srv''\<rparr>)) = ''/srv''
   \<and> (\<exists>nd. env_isdir sample_env nd
         \<and> fs_get_work_dir (snd (cwd_run sample_env [Some ''nosuch'', Some ''/d''] \<lparr>root_dir = ''/srv'', working_dir = ''/srv''\<rparr>))
           = CHR ''/'' # drop (length ''/srv'') nd)
   \<and> fs_get_work_dir (snd (cwd_run sample_env [Some ''nosuch'', Some ''/d''] \<lparr>root_dir = ''/srv'', working_dir = ''/srv''\<rparr>)) = ''//d''
   \<and> take (length ''/srv'') ''/srv/d'' = ''/srv''"
proof -
  let ?P0 = "\<lparr>root_dir = ''/srv'', working_dir = ''/srv''\<rparr>"
  have i: "fs_init sample_env ''/srv'' = Inr ?P0"
    by (simp add: fs_init_def sample_env_def)
  have n: "Inr True \<notin> set (fst (cwd_run sample_env [Some ''nosuch''] ?P0))"
    by (simp add: fs_change_work_dir_def fs_normalize_path_def sample_env_def)
  have y: "Inr True \<in> set (fst (cwd_run sample_env [Some ''nosuch'', Some ''/d''] ?P0))"
    by (simp add: fs_change_work_dir_def fs_normalize_path_def sample_env_def)
  have np: "\<not> has_double_slash (root_dir ?P0) \<and> fs_normalize_path ?P0 (Some ''/d'') = Inr ''/srv/d''"
    by (simp add: fs_normalize_path_def)
  have 1: "fs_get_work_dir ?P0 = root_dir ?P0
          \<and> root_dir ?P0 = map (\<lambda>c. if c = CHR 0x5C then CHR ''/'' else c) ''/srv''"
    by (rule fs_work_dir_root_relative [THEN conjunct1, THEN mp, OF i])
  have 2: "fs_get_work_dir (snd (cwd_run sample_env [Some ''nosuch''] ?P0)) = fs_get_work_dir ?P0"
    by (rule fs_work_dir_root_relative [THEN conjunct2, THEN conjunct1, THEN mp, OF n])
  have 3: "\<exists>nd. env_isdir sample_env nd
         \<and> fs_get_work_dir (snd (cwd_run sample_env [Some ''nosuch'', Some ''/d''] ?P0))
           = CHR ''/'' # drop (length (root_dir ?P0)) nd"
    by (rule fs_work_dir_root_relative [THEN conjunct2, THEN conjunct2, THEN conjunct1, THEN mp, OF y])
  have 5: "take (length (root_dir ?P0)) ''/srv/d'' = root_dir ?P0"
    by (rule fs_work_dir_root_relative [THEN conjunct2, THEN conjunct2, THEN conjunct2, THEN conjunct2,
          THEN mp, OF np])
  have v: "fs_get_work_dir (snd (cwd_run sample_env [Some ''nosuch'', Some ''/d''] ?P0)) = ''//d''"
    by (simp add: fs_change_work_dir_def fs_normalize_path_def sample_env_def fs_get_work_dir_def)
  from 1 2 3 5 v show ?thesis
    by (simp add: fs_get_work_dir_def)
qed

text \<open>
  Claim C10 says that every successful \<open>change_work_dir\<close> stores the path of its target
  with the root prefix stripped and a leading slash. The code drops the first
  \<open>len(root_dir)\<close> characters of the normalised path, and the normalisation has already
  shortened a root given with double slashes. On the root \<open>//srv//data\<close>, which the
  constructor accepts, the change to \<open>/x\<close> succeeds and stores \<open>/\<close>: the working directory
  reported is the root, and a relative name is looked up in the root, not in \<open>x\<close>. On the
  root \<open>/srv/data\<close> the same change stores \<open>//x\<close>, and the name is looked up in \<open>x\<close>.
\<close>

theorem double_slash_root_drops_directory:
  "fs_init double_slash_env ''//srv//data''
     = Inr \<lparr>root_dir = ''//srv//data'', working_dir = ''//srv//data''\<rparr>
   \<and> fs_normalize_path \<lparr>root_dir = ''//srv//data'', working_dir = ''//srv//data''\<rparr> (Some ''/x'')
     = Inr ''/srv/data/x''
   \<and> fs_change_work_dir double_slash_env (Some ''/x'')
        \<lparr>root_dir = ''//srv//data'', working_dir = ''//srv//data''\<rparr>
     = (Inr True, \<lparr>root_dir = ''//srv//data'', working_dir = ''/''\<rparr>)
   \<and> fs_get_work_dir \<lparr>root_dir = ''//srv//data'', working_dir = ''/''\<rparr> = ''/''
   \<and> fs_normalize_path \<lparr>root_dir = ''//srv//data'', working_dir = ''/''\<rparr> (Some ''f'')
     = Inr ''/srv/data/f''
   \<and> fs_change_work_dir double_slash_env (Some ''/x'')
        \<lparr>root_dir = ''/srv/data'', working_dir = ''/srv/data''\<rparr>
     = (Inr True, \<lparr>root_dir = ''/srv/data'', working_dir = ''//x''\<rparr>)
   \<and> fs_normalize_path \<lparr>root_dir = ''/srv/data'', working_dir = ''//x''\<rparr> (Some ''f'')
     = Inr ''/srv/data/x/f''"
  by (simp add: fs_init_def fs_change_work_dir_def fs_normalize_path_def fs_get_work_dir_def
        double_slash_env_def)

section \<open>Storing a file and reading it back\<close>

lemma file_write_content:
  "files (file_write D path data) path = Some ((case files D path of None \<Rightarrow> [] | Some old \<Rightarrow> old) @ data)"
  by (simp add: file_write_def)

lemma save_loop_content:
  "files D path = Some old \<Longrightarrow>
   files (save_loop D path chunks) path = Some (old @ concat (takeWhile (\<lambda>c. c \<noteq> []) chunks))"
proof (induction chunks arbitrary: D old)
  case Nil
  then show ?case by simp
next
  case (Cons data chunks)
  show ?case
  proof (cases "data = []")
    case True
    with Cons.prems show ?thesis by simp
  next
    case False
    have "files (file_write D path data) path = Some (old @ data)"
      using Cons.prems by (simp add: file_write_content)
    from Cons.IH [OF this] False show ?thesis by simp
  qed
qed

lemma save_then_get:
  assumes "fst (fs_save_file D P f chunks) = Inr ()"
  shows "fs_get_file (snd (fs_save_file D P f chunks)) P f
         = Inr (concat (takeWhile (\<lambda>c. c \<noteq> []) chunks))"
proof -
  from assms obtain path where np: "fs_normalize_path P f = Inr path"
    by (cases "fs_normalize_path P f") (auto simp: fs_save_file_def)
  from assms np have cr: "creatable D path"
    by (auto simp: fs_save_file_def open_wb_def split: if_splits)
  let ?D' = "D\<lparr>files := (files D)(path := Some [])\<rparr>"
  have sv: "fs_save_file D P f chunks = (Inr (), save_loop ?D' path chunks)"
    using np cr by (simp add: fs_save_file_def open_wb_def)
  have "files ?D' path = Some []" by simp
  from save_loop_content [OF this, of chunks]
  have "files (save_loop ?D' path chunks) path = Some (concat (takeWhile (\<lambda>c. c \<noteq> []) chunks))"
    by simp
  with sv np show ?thesis by (simp add: fs_get_file_def)
qed

lemma save_succeeds:
  assumes "fs_normalize_path P f = Inr path" and "creatable D path"
  shows "fst (fs_save_file D P f chunks) = Inr ()"
  using assms by (simp add: fs_save_file_def open_wb_def)

lemma takeWhile_nonempty_stop:
  "list_all (\<lambda>c. c \<noteq> []) chunks \<Longrightarrow>
   takeWhile (\<lambda>c. c \<noteq> []) (chunks @ [] # later) = chunks"
  by (induction chunks) auto

lemma takeWhile_nonempty:
  "list_all (\<lambda>c. c \<noteq> []) chunks \<Longrightarrow> takeWhile (\<lambda>c. c \<noteq> []) chunks = chunks"
  by (induction chunks) auto

text \<open>
  Claim C9. When the name normalises to a path that can be opened for writing and
  \<open>get_file_chunk\<close> delivers the non-empty chunks of a payload (any number of them,
  also none) and then the empty chunk, \<open>save_file\<close> returns normally and \<open>get_file\<close> on
  the same name then returns exactly the chunks' concatenation; what the callable would
  return after its first empty chunk plays no part. The same holds whenever
  \<open>save_file\<close> has returned normally.
\<close>

theorem save_file_get_file_roundtrip:
  "(fs_normalize_path P f = Inr path \<and> creatable D path \<and> list_all (\<lambda>c. c \<noteq> []) chunks
      \<longrightarrow> fst (fs_save_file D P f chunks) = Inr ()
          \<and> fs_get_file (snd (fs_save_file D P f chunks)) P f = Inr (concat chunks))
   \<and> (fs_normalize_path P f = Inr path \<and> creatable D path \<and> list_all (\<lambda>c. c \<noteq> []) chunks
      \<longrightarrow> fst (fs_save_file D P f (chunks @ [] # later)) = Inr ()
          \<and> fs_get_file (snd (fs_save_file D P f (chunks @ [] # later))) P f = Inr (concat chunks))
   \<and> (fst (fs_save_file D P f chunks) = Inr () \<and> list_all (\<lambda>c. c \<noteq> []) chunks
      \<longrightarrow> fs_get_file (snd (fs_save_file D P f chunks)) P f = Inr (concat chunks))"
proof -
  have p3: "fs_normalize_path P f = Inr path \<and> creatable D path \<and> list_all (\<lambda>c. c \<noteq> []) chunks
      \<longrightarrow> fst (fs_save_file D P f (chunks @ [] # later)) = Inr ()
          \<and> fs_get_file (snd (fs_save_file D P f (chunks @ [] # later))) P f = Inr (concat chunks)"
  proof (intro impI, elim conjE)
    assume np: "fs_normalize_path P f = Inr path" and cr: "creatable D path"
      and ne: "list_all (\<lambda>c. c \<noteq> []) chunks"
    have ok: "fst (fs_save_file D P f (chunks @ [] # later)) = Inr ()"
      using np cr by (rule save_succeeds)
    from save_then_get [OF ok] takeWhile_nonempty_stop [OF ne, of later] ok
    show "fst (fs_save_file D P f (chunks @ [] # later)) = Inr ()
          \<and> fs_get_file (snd (fs_save_file D P f (chunks @ [] # later))) P f = Inr (concat chunks)"
      by simp
  qed
  have p2: "fst (fs_save_file D P f chunks) = Inr () \<and> list_all (\<lambda>c. c \<noteq> []) chunks
      \<longrightarrow> fs_get_file (snd (fs_save_file D P f chunks)) P f = Inr (concat chunks)"
  proof (intro impI, elim conjE)
    assume a: "fst (fs_save_file D P f chunks) = Inr ()" and b: "list_all (\<lambda>c. c \<noteq> []) chunks"
    from save_then_get [OF a] takeWhile_nonempty [OF b]
    show "fs_get_file (snd (fs_save_file D P f chunks)) P f = Inr (concat chunks)"
      by simp
  qed
  have p1: "fs_normalize_path P f = Inr path \<and> creatable D path \<and> list_all (\<lambda>c. c \<noteq> []) chunks
      \<longrightarrow> fst (fs_save_file D P f chunks) = Inr ()
          \<and> fs_get_file (snd (fs_save_file D P f chunks)) P f = Inr (concat chunks)"
    using save_succeeds [of P f path D chunks] p2 by blast
  show ?thesis
    by (intro conjI) (rule p1 p2 p3)+
qed

text \<open>
  Storing the chunks \<open>ab\<close>, \<open>c\<close> over an existing file, and storing the empty payload.
\<close>

theorem save_file_get_file_roundtrip_witness:
  "fst (fs_save_file sample_disk \<lparr>root_dir = ''/srv'', working_dir = ''/''\<rparr> (Some ''f'') [''ab'', ''c'']) = Inr ()
   \<and> fs_get_file (snd (fs_save_file sample_disk \<lparr>root_dir = ''/srv'', working_dir = ''/''\<rparr> (Some ''f'') [''ab'', ''c'']))
        \<lparr>root_dir = ''/srv'', working_dir = ''/''\<rparr> (Some ''f'') = Inr ''abc''
   \<and> fst (fs_save_file sample_disk \<lparr>root_dir = ''/srv'', working_dir = ''/''\<rparr> (Some ''f'') []) = Inr ()
   \<and> fs_get_file (snd (fs_save_file sample_disk \<lparr>root_dir = ''/srv'', working_dir = ''/''\<rparr> (Some ''f'') []))
        \<lparr>root_dir = ''/srv'', working_dir = ''/''\<rparr> (Some ''f'') = Inr []
   \<and> fs_get_file (snd (fs_save_file sample_disk \<lparr>root_dir = ''/srv'', working_dir = ''/''\<rparr> (Some ''f'')
          ([''ab'', ''c''] @ [] # [''zz''])))
        \<lparr>root_dir = ''/srv'', working_dir = ''/''\<rparr> (Some ''f'') = Inr ''abc''"
proof -
  let ?P = "\<lparr>root_dir = ''/srv'', working_dir = ''/''\<rparr>"
  have h1: "fs_normalize_path ?P (Some ''f'') = Inr ''/srv/f'' \<and> creatable sample_disk ''/srv/f''
      \<and> list_all (\<lambda>c. c \<noteq> []) [''ab'', ''c'']"
    by (simp add: fs_normalize_path_def sample_disk_def)
  have h2: "fs_normalize_path ?P (Some ''f'') = Inr ''/srv/f'' \<and> creatable sample_disk ''/srv/f''
      \<and> list_all (\<lambda>c. c \<noteq> []) ([]::bytes list)"
    by (simp add: fs_normalize_path_def sample_disk_def)
  have 1: "fst (fs_save_file sample_disk ?P (Some ''f'') [''ab'', ''c'']) = Inr ()
      \<and> fs_get_file (snd (fs_save_file sample_disk ?P (Some ''f'') [''ab'', ''c''])) ?P (Some ''f'')
          = Inr (concat [''ab'', ''c''])"
    by (rule save_file_get_file_roundtrip [THEN conjunct1, THEN mp, OF h1])
  have 2: "fst (fs_save_file sample_disk ?P (Some ''f'') []) = Inr ()
      \<and> fs_get_file (snd (fs_save_file sample_disk ?P (Some ''f'') [])) ?P (Some ''f'')
          = Inr (concat [])"
    by (rule save_file_get_file_roundtrip [THEN conjunct1, THEN mp, OF h2])
  have 3: "fst (fs_save_file sample_disk ?P (Some ''f'') ([''ab'', ''c''] @ [] # [''zz''])) = Inr ()
      \<and> fs_get_file (snd (fs_save_file sample_disk ?P (Some ''f'') ([''ab'', ''c''] @ [] # [''zz'']))) ?P (Some ''f'')
          = Inr (concat [''ab'', ''c''])"
    by (rule save_file_get_file_roundtrip [THEN conjunct2, THEN conjunct1, THEN mp, OF h1])
  from 1 2 3 show ?thesis by simp
qed

section \<open>The format of directory listings\<close>









end
